theory Spec2Isabelle
  imports Main
begin

section \<open>Data model of the IMAP handlers (imap.js)\<close>

text \<open>
  The handlers of \<^verbatim>\<open>imap.js\<close> run against a document database (collections
  \<^verbatim>\<open>users\<close>, \<^verbatim>\<open>mailboxes\<close>, \<^verbatim>\<open>messages\<close>, \<^verbatim>\<open>attachments.files\<close>), a notifier
  (\<^verbatim>\<open>addEntries\<close>, \<^verbatim>\<open>fire\<close>) and the session's output (\<^verbatim>\<open>writeStream\<close>, \<^verbatim>\<open>socket\<close>).
  The model is sequential: one handler runs from its call to its completion callback,
  every storage call is one step on an explicit state, and the result of a call that the
  state does not determine (a storage error, a stream error, the rate limiter's answer)
  is an input of the handler, collected in an environment record.

  Strings are byte strings; \<^verbatim>\<open>trim\<close> and \<^verbatim>\<open>toLowerCase\<close> are modelled on ASCII.
  Numbers are \<open>nat\<close> (identifiers, UIDs, modseq) or \<open>int\<close> (sizes, quota).
\<close>

type_synonym oid = nat
type_synonym flag = string

datatype error = Error (err_message: string) (err_response: "string option")

record user =
  u_id :: oid
  u_username :: string
  u_password :: string
  u_quota :: int
  u_storageUsed :: int

record mailbox =
  mb_id :: oid
  mb_user :: oid
  mb_path :: string
  mb_uidValidity :: nat
  mb_uidNext :: nat
  mb_modifyIndex :: nat
  mb_subscribed :: bool
  mb_flags :: "flag list"

record message =
  m_id :: oid
  m_mailbox :: oid
  m_uid :: nat
  m_modseq :: nat
  m_flags :: "flag list"
  m_seen :: bool
  m_flagged :: bool
  m_deleted :: bool
  m_size :: int
  m_source :: "string option"

record session =
  s_id :: string
  s_user_id :: oid
  s_username :: string
  s_remoteAddress :: string

subsection \<open>String helpers\<close>

definition backslash :: char where
  "backslash = CHR 0x5C"

definition flagSeen :: flag where
  "flagSeen = backslash # ''Seen''"

definition flagFlagged :: flag where
  "flagFlagged = backslash # ''Flagged''"

definition flagDeleted :: flag where
  "flagDeleted = backslash # ''Deleted''"

definition is_space :: "char \<Rightarrow> bool" where
  "is_space c = (c \<in> set [CHR 0x09, CHR 0x0A, CHR 0x0B, CHR 0x0C, CHR 0x0D, CHR 0x20])"

definition trim :: "string \<Rightarrow> string" where
  "trim s = rev (dropWhile is_space (rev (dropWhile is_space s)))"

definition lower_char :: "char \<Rightarrow> char" where
  "lower_char c =
     (case map_of (zip ''ABCDEFGHIJKLMNOPQRSTUVWXYZ'' ''abcdefghijklmnopqrstuvwxyz'') c of
        None \<Rightarrow> c
      | Some l \<Rightarrow> l)"

definition toLowerCase :: "string \<Rightarrow> string" where
  "toLowerCase s = map lower_char s"

section \<open>Journal entries, responses and the state\<close>

text \<open>
  An entry is the object literal a handler hands to \<^verbatim>\<open>notifier.addEntries\<close>. A property
  that the literal does not have is \<open>None\<close>; \<open>e_modseq\<close> is the journal's \<^verbatim>\<open>modseq\<close>
  field, which no literal in \<^verbatim>\<open>imap.js\<close> sets.
\<close>

datatype command = EXISTS | EXPUNGE | FETCH

record entry =
  e_command :: command
  e_ignore :: "string option"
  e_uid :: nat
  e_flags :: "flag list option"
  e_message :: oid
  e_modseq :: "nat option"

text \<open>
  What a handler writes to \<^verbatim>\<open>session.writeStream\<close>: the arguments of
  \<^verbatim>\<open>session.formatResponse\<close> (the formatter itself belongs to imap-core).
  \<open>FetchFlags uid u flags\<close> is \<^verbatim>\<open>formatResponse('FETCH', uid, {uid: u, flags})\<close> with
  \<open>None\<close> for \<^verbatim>\<open>false\<close>; \<open>FetchValues uid query values\<close> is the compiled stream of
  \<^verbatim>\<open>formatResponse('FETCH', uid, {query, values})\<close>.
\<close>

datatype response =
    FetchFlags nat "nat option" "flag list"
  | ExpungeLine nat
  | FetchValues nat "string list" "string list"

datatype socket_event = SocketWrite string | SocketDestroy

record attachment =
  a_id :: oid
  a_messages :: "oid list"

record world =
  db_users :: "user list"
  db_mailboxes :: "mailbox list"
  db_messages :: "message list"
  db_attachments :: "attachment list"
  journal :: "(oid \<times> string \<times> entry) list"
  fired :: "(oid \<times> string) list"
  written :: "response list"
  socket :: "socket_event list"

datatype reply =
    ReplyError error
  | ReplyCode string
  | ReplyOk
  | ReplyCopied nat "nat list" "nat list"
  | ReplyFound "nat list" nat

subsection \<open>Query clauses\<close>

text \<open>
  The objects the search handler pushes on a query's \<^verbatim>\<open>$and\<close> or \<^verbatim>\<open>$or\<close> array.
  Operator and field names are kept as the strings the source computes.
  \<open>RangeDay a b\<close> is \<^verbatim>\<open>[{$gte: a}, {$lt: b}]\<close>, \<open>RangeOp op v\<close> is \<^verbatim>\<open>{[op]: v}\<close>; the
  last argument of the header, date and size clauses says whether the condition sits
  under \<^verbatim>\<open>$not\<close> (\<^verbatim>\<open>$ne\<close> for \<open>ClauseHeaderKey\<close>).
\<close>

datatype range_entry = RangeDay int int | RangeOp string int

datatype clause =
    ClauseOr "clause list"
  | ClauseText string
  | ClauseModseq string nat
  | ClauseUidList string "nat list"
  | ClauseUid string nat
  | ClauseBool string bool
  | ClauseFlags string flag
  | ClauseHeaderMatch string string bool
  | ClauseHeaderKey string bool
  | ClauseInternaldate range_entry bool
  | ClauseHeaderdate range_entry bool
  | ClauseSize string int bool

subsection \<open>The environment: results the state does not determine\<close>

text \<open>
  \<open>BulkFailed err ps\<close>: an unordered \<^verbatim>\<open>bulkWrite\<close> that reports \<open>err\<close> after applying the
  operations at the positions \<open>ps\<close> of the batch.
\<close>

datatype bulk_outcome = BulkOk | BulkFailed error "nat list"

record env =
  mailboxFindErr :: "error option"
  targetFindErr :: "error option"
  cursorErr :: "(nat \<times> error) option"
  bulkResult :: "nat \<Rightarrow> bulk_outcome"
  deleteErr :: "oid \<Rightarrow> error option"
  unlinkErr :: "oid \<Rightarrow> error option"
  sweepErr :: "error option"
  uidNextErr :: "oid \<Rightarrow> error option"
  insertErr :: "oid \<Rightarrow> error option"
  linkErr :: "oid \<Rightarrow> error option"
  newObjectID :: "oid \<Rightarrow> oid"
  streamErr :: "oid \<Rightarrow> error option"
  getQueryResponse :: "string list \<Rightarrow> message \<Rightarrow> string list"
  systemFlags :: "flag list"
  matchExternal :: "clause \<Rightarrow> message \<Rightarrow> bool"

text \<open>
  \<open>mailboxFindErr\<close>, \<open>targetFindErr\<close>: the error of the first and of the second
  \<^verbatim>\<open>findOne\<close> on mailboxes. \<open>cursorErr = Some (k, err)\<close>: the call of \<^verbatim>\<open>cursor.next\<close>
  after \<open>k\<close> documents reports \<open>err\<close>. \<open>bulkResult k\<close>: the outcome of the \<open>k\<close>-th
  \<^verbatim>\<open>bulkWrite\<close> of the command. The fields taking an \<open>oid\<close> give the outcome of the call
  made while the cursor's message with that \<^verbatim>\<open>_id\<close> is processed; \<open>newObjectID\<close> is the
  identifier \<^verbatim>\<open>new ObjectID()\<close> returns there. \<open>getQueryResponse\<close> (imap-core) and
  \<open>systemFlags\<close> (\<^verbatim>\<open>imapTools.systemFlags\<close>) are not part of \<^verbatim>\<open>imap.js\<close>.
  \<open>matchExternal\<close> is the database's verdict on a clause over fields the message record
  does not hold (full text, headers, dates).
\<close>

datatype 'a cursor_item = NextError error | NextDoc 'a

definition cursor_of :: "(nat \<times> error) option \<Rightarrow> 'a list \<Rightarrow> 'a cursor_item list" where
  "cursor_of ce docs =
     (case ce of
        None \<Rightarrow> map NextDoc docs
      | Some (k, err) \<Rightarrow>
          if k \<le> length docs then map NextDoc (take k docs) @ [NextError err]
          else map NextDoc docs)"

subsection \<open>Storage and notifier operations\<close>

definition findMailbox :: "oid \<Rightarrow> string \<Rightarrow> world \<Rightarrow> mailbox option" where
  "findMailbox usr path w = find (\<lambda>b. mb_user b = usr \<and> mb_path b = path) (db_mailboxes w)"

fun updateFirst :: "('a \<Rightarrow> bool) \<Rightarrow> ('a \<Rightarrow> 'a) \<Rightarrow> 'a list \<Rightarrow> 'a list" where
  "updateFirst p f [] = []"
| "updateFirst p f (x # xs) = (if p x then f x # xs else x # updateFirst p f xs)"

fun deleteFirst :: "('a \<Rightarrow> bool) \<Rightarrow> 'a list \<Rightarrow> 'a list" where
  "deleteFirst p [] = []"
| "deleteFirst p (x # xs) = (if p x then xs else x # deleteFirst p xs)"

text \<open>
  Modelled from the spec: \<^verbatim>\<open>notifier.addEntries\<close> belongs to \<^verbatim>\<open>lib/imap-notifier\<close>,
  which is not among the sources. Section 4.3 of the specification:
  \<^verbatim>\<open>add_entries(user, mailbox_path, entry | entry_list, done)\<close> persists journal entries
  in a single batched write. The model appends the entries to the journal as they are
  handed over and writes nothing else: in sections 4.2 and 4.5 of the specification it
  is the caller that takes an entry's \<^verbatim>\<open>modseq\<close> from \<^verbatim>\<open>mailbox.modifyIndex\<close>.
\<close>

definition addEntries :: "oid \<Rightarrow> string \<Rightarrow> entry list \<Rightarrow> world \<Rightarrow> world" where
  "addEntries usr path es w = w\<lparr>journal := journal w @ map (\<lambda>e. (usr, path, e)) es\<rparr>"

text \<open>
  Modelled from the spec: \<^verbatim>\<open>notifier.fire\<close> belongs to \<^verbatim>\<open>lib/imap-notifier\<close>, which is
  not among the sources. Section 4.3 of the specification: \<^verbatim>\<open>fire(user, mailbox_path)\<close>
  is an in-process signal to the sessions that have the mailbox selected. The model
  records the signal.
\<close>

definition fire :: "oid \<Rightarrow> string \<Rightarrow> world \<Rightarrow> world" where
  "fire usr path w = w\<lparr>fired := fired w @ [(usr, path)]\<rparr>"

definition writeResponse :: "response \<Rightarrow> world \<Rightarrow> world" where
  "writeResponse r w = w\<lparr>written := written w @ [r]\<rparr>"

definition incStorageUsed :: "oid \<Rightarrow> int \<Rightarrow> world \<Rightarrow> world" where
  "incStorageUsed usr delta w =
     w\<lparr>db_users := updateFirst (\<lambda>u. u_id u = usr)
                      (\<lambda>u. u\<lparr>u_storageUsed := u_storageUsed u + delta\<rparr>) (db_users w)\<rparr>"

section \<open>Update documents\<close>

text \<open>
  The update documents the handlers build, \<^verbatim>\<open>{$set: {...}, $addToSet: {flags: {$each:
  ...}}, $pull: {flags: {$in: ...}}}\<close>, as records with \<open>None\<close> for an absent operator or
  field, and the database's reading of them: \<^verbatim>\<open>$addToSet\<close> appends the values that the
  array lacks, \<^verbatim>\<open>$pull\<close> removes every listed value, \<^verbatim>\<open>$set\<close> overwrites the fields
  it names.
\<close>

record set_doc =
  set_flags :: "flag list option"
  set_seen :: "bool option"
  set_flagged :: "bool option"
  set_deleted :: "bool option"

record update_doc =
  upd_set :: "set_doc option"
  upd_addToSet :: "flag list option"
  upd_pull :: "flag list option"

definition emptySet :: set_doc where
  "emptySet = \<lparr>set_flags = None, set_seen = None, set_flagged = None, set_deleted = None\<rparr>"

definition addToSetEach :: "flag list \<Rightarrow> flag list \<Rightarrow> flag list" where
  "addToSetEach each fs = foldl (\<lambda>acc f. if f \<in> set acc then acc else acc @ [f]) fs each"

definition pullIn :: "flag list \<Rightarrow> flag list \<Rightarrow> flag list" where
  "pullIn old fs = filter (\<lambda>f. f \<notin> set old) fs"

definition applySet :: "set_doc \<Rightarrow> message \<Rightarrow> message" where
  "applySet s m =
     m\<lparr>m_flags := (case set_flags s of None \<Rightarrow> m_flags m | Some fs \<Rightarrow> fs),
       m_seen := (case set_seen s of None \<Rightarrow> m_seen m | Some b \<Rightarrow> b),
       m_flagged := (case set_flagged s of None \<Rightarrow> m_flagged m | Some b \<Rightarrow> b),
       m_deleted := (case set_deleted s of None \<Rightarrow> m_deleted m | Some b \<Rightarrow> b)\<rparr>"

definition applyUpdate :: "update_doc \<Rightarrow> message \<Rightarrow> message" where
  "applyUpdate u m =
     (let m1 = (case upd_addToSet u of None \<Rightarrow> m
                | Some each \<Rightarrow> m\<lparr>m_flags := addToSetEach each (m_flags m)\<rparr>);
          m2 = (case upd_pull u of None \<Rightarrow> m1
                | Some old \<Rightarrow> m1\<lparr>m_flags := pullIn old (m_flags m1)\<rparr>)
      in case upd_set u of None \<Rightarrow> m2 | Some s \<Rightarrow> applySet s m2)"

definition updateOne :: "oid \<times> update_doc \<Rightarrow> message list \<Rightarrow> message list" where
  "updateOne op ms = updateFirst (\<lambda>m. m_id m = fst op) (applyUpdate (snd op)) ms"

definition appliedOps :: "bulk_outcome \<Rightarrow> 'a list \<Rightarrow> 'a list" where
  "appliedOps out ops =
     (case out of
        BulkOk \<Rightarrow> ops
      | BulkFailed err ps \<Rightarrow> map snd (filter (\<lambda>(i, op). i \<in> set ps) (enumerate 0 ops)))"

definition bulkError :: "bulk_outcome \<Rightarrow> error option" where
  "bulkError out = (case out of BulkOk \<Rightarrow> None | BulkFailed err ps \<Rightarrow> Some err)"

definition bulkWrite :: "bulk_outcome \<Rightarrow> (oid \<times> update_doc) list \<Rightarrow> world \<Rightarrow> world" where
  "bulkWrite out ops w =
     w\<lparr>db_messages := foldl (\<lambda>ms op. updateOne op ms) (db_messages w) (appliedOps out ops)\<rparr>"

definition findSorted :: "(message \<Rightarrow> bool) \<Rightarrow> world \<Rightarrow> message list" where
  "findSorted q w = sort_key m_uid (filter q (db_messages w))"

definition BULK_BATCH_SIZE :: nat where
  "BULK_BATCH_SIZE = 150"

section \<open>updateMailboxFlags and onStore\<close>

datatype action = ActionSet | ActionAdd | ActionRemove

text \<open>
  \<open>up_unchangedSince\<close> is a number; \<open>0\<close> stands for every falsy value of
  \<^verbatim>\<open>update.unchangedSince\<close> (absent, \<^verbatim>\<open>false\<close>, \<^verbatim>\<open>0\<close>), which the handler does not
  tell apart.
\<close>

record store_update =
  up_action :: action
  up_value :: "flag list"
  up_messages :: "nat list"
  up_unchangedSince :: nat
  up_silent :: bool
  up_isUid :: bool

definition normFlag :: "flag \<Rightarrow> flag" where
  "normFlag f = trim (toLowerCase f)"

definition learnFlags :: "flag list \<Rightarrow> flag list \<Rightarrow> flag list" where
  "learnFlags mailboxFlags val =
     foldl (\<lambda>newFlags flag.
              if length mailboxFlags + length newFlags \<ge> 100 then newFlags
              else if normFlag flag \<notin> set mailboxFlags then newFlags @ [flag]
              else newFlags) [] val"

definition updateMailboxFlags :: "env \<Rightarrow> mailbox \<Rightarrow> store_update \<Rightarrow> world \<Rightarrow> world" where
  "updateMailboxFlags env mailbox update w =
     (if up_action update = ActionRemove then w
      else
        let mailboxFlags = map (\<lambda>flag. toLowerCase (trim flag)) (systemFlags env @ mb_flags mailbox);
            newFlags = learnFlags mailboxFlags (up_value update)
        in if newFlags = [] then w
           else w\<lparr>db_mailboxes :=
                    updateFirst (\<lambda>b. mb_id b = mb_id mailbox)
                      (\<lambda>b. b\<lparr>mb_flags := addToSetEach newFlags (mb_flags b)\<rparr>) (db_mailboxes w)\<rparr>)"

text \<open>
  The \<^verbatim>\<open>$set\<close> object of the add and remove cases. The source assigns
  \<^verbatim>\<open>flagsupdate.$set = {}\<close> and then, for each of the three system flags found in the
  list, assigns \<^verbatim>\<open>flagsupdate.$set\<close> a new one-field object: each assignment replaces
  the object of the one before.
\<close>

definition systemFlagsSet :: "flag list \<Rightarrow> bool \<Rightarrow> set_doc option" where
  "systemFlagsSet fs v =
     (if flagSeen \<in> set fs \<or> flagFlagged \<in> set fs \<or> flagDeleted \<in> set fs then
        (let s0 = emptySet;
             s1 = (if flagSeen \<in> set fs then emptySet\<lparr>set_seen := Some v\<rparr> else s0);
             s2 = (if flagFlagged \<in> set fs then emptySet\<lparr>set_flagged := Some v\<rparr> else s1);
             s3 = (if flagDeleted \<in> set fs then emptySet\<lparr>set_deleted := Some v\<rparr> else s2)
         in Some s3)
      else None)"

text \<open>
  The \<^verbatim>\<open>switch (update.action)\<close> of \<^verbatim>\<open>processNext\<close>: the new value of
  \<^verbatim>\<open>message.flags\<close> and \<^verbatim>\<open>flagsupdate\<close>, which is \<open>None\<close> (\<^verbatim>\<open>false\<close>) exactly when
  \<^verbatim>\<open>updated\<close> stays false.
\<close>

definition storeFlags :: "store_update \<Rightarrow> flag list \<Rightarrow> flag list \<times> update_doc option" where
  "storeFlags update flags =
     (let existingFlags = map normFlag flags in
      case up_action update of
        ActionSet \<Rightarrow>
          (let updated = (length existingFlags \<noteq> length (up_value update) \<or>
                          filter (\<lambda>flag. normFlag flag \<notin> set existingFlags) (up_value update) \<noteq> []);
               flags' = up_value update
           in (flags',
               if updated
               then Some \<lparr>upd_set = Some \<lparr>set_flags = Some flags',
                                          set_seen = Some (flagSeen \<in> set flags'),
                                          set_flagged = Some (flagFlagged \<in> set flags'),
                                          set_deleted = Some (flagDeleted \<in> set flags')\<rparr>,
                          upd_addToSet = None, upd_pull = None\<rparr>
               else None))
      | ActionAdd \<Rightarrow>
          (let newFlags = filter (\<lambda>flag. normFlag flag \<notin> set existingFlags) (up_value update);
               flags' = flags @ newFlags
           in (flags',
               if newFlags \<noteq> []
               then Some \<lparr>upd_set = systemFlagsSet newFlags True,
                          upd_addToSet = Some newFlags, upd_pull = None\<rparr>
               else None))
      | ActionRemove \<Rightarrow>
          (let flagsUpdates = map normFlag (up_value update);
               oldFlags = filter (\<lambda>flag. normFlag flag \<in> set flagsUpdates) flags;
               flags' = filter (\<lambda>flag. normFlag flag \<notin> set flagsUpdates) flags
           in (flags',
               if oldFlags \<noteq> []
               then Some \<lparr>upd_set = systemFlagsSet oldFlags False,
                          upd_addToSet = None, upd_pull = Some oldFlags\<rparr>
               else None)))"

definition storeQuery :: "mailbox \<Rightarrow> store_update \<Rightarrow> message \<Rightarrow> bool" where
  "storeQuery mailbox update m =
     (if up_unchangedSince update \<noteq> 0
      then m_mailbox m = mb_id mailbox \<and> m_modseq m \<le> up_unchangedSince update \<and>
           m_uid m \<in> set (up_messages update)
      else m_mailbox m = mb_id mailbox \<and> m_uid m \<in> set (up_messages update))"

definition storeEntry :: "session \<Rightarrow> message \<Rightarrow> flag list \<Rightarrow> entry" where
  "storeEntry session message flags =
     \<lparr>e_command = FETCH, e_ignore = Some (s_id session), e_uid = m_uid message,
      e_flags = Some flags, e_message = m_id message, e_modseq = None\<rparr>"

text \<open>
  \<^verbatim>\<open>done(...args)\<close> of onStore, with the current \<^verbatim>\<open>updateEntries\<close> and
  \<^verbatim>\<open>notifyEntries\<close> and the number \<open>k\<close> of bulk writes made so far. The callback of
  this \<^verbatim>\<open>bulkWrite\<close> takes no error.
\<close>

definition store_done ::
  "env \<Rightarrow> mailbox \<Rightarrow> string \<Rightarrow> store_update \<Rightarrow> session \<Rightarrow> reply \<Rightarrow>
   (oid \<times> update_doc) list \<Rightarrow> entry list \<Rightarrow> nat \<Rightarrow> world \<Rightarrow> reply \<times> world" where
  "store_done env mailbox path update session args updateEntries notifyEntries k w =
     (if updateEntries \<noteq> [] then
        (let w1 = bulkWrite (bulkResult env k) updateEntries w;
             w2 = addEntries (s_user_id session) path notifyEntries w1;
             w3 = fire (s_user_id session) path w2
         in case args of
              ReplyError err \<Rightarrow> (args, w3)
            | _ \<Rightarrow> (args, updateMailboxFlags env mailbox update w3))
      else
        (let w1 = fire (s_user_id session) path w
         in case args of
              ReplyError err \<Rightarrow> (args, w1)
            | _ \<Rightarrow> (args, updateMailboxFlags env mailbox update w1)))"

text \<open>
  \<^verbatim>\<open>processNext\<close> of onStore as recursion on what the cursor yields; the end of the list
  is the \<^verbatim>\<open>null\<close> document.
\<close>

fun store_processNext ::
  "env \<Rightarrow> mailbox \<Rightarrow> string \<Rightarrow> store_update \<Rightarrow> session \<Rightarrow> message cursor_item list \<Rightarrow>
   (oid \<times> update_doc) list \<Rightarrow> entry list \<Rightarrow> nat \<Rightarrow> world \<Rightarrow> reply \<times> world" where
  "store_processNext env mailbox path update session [] ups nts k w =
     store_done env mailbox path update session ReplyOk ups nts k w"
| "store_processNext env mailbox path update session (NextError err # cursor) ups nts k w =
     store_done env mailbox path update session (ReplyError err) ups nts k w"
| "store_processNext env mailbox path update session (NextDoc message # cursor) ups nts k w =
     (let flags' = fst (storeFlags update (m_flags message));
          flagsupdate = snd (storeFlags update (m_flags message));
          w1 = (if \<not> up_silent update
                then writeResponse
                       (FetchFlags (m_uid message)
                          (if up_isUid update then Some (m_uid message) else None) flags') w
                else w)
      in case flagsupdate of
           None \<Rightarrow> store_processNext env mailbox path update session cursor ups nts k w1
         | Some fu \<Rightarrow>
             (let updateEntries = ups @ [(m_id message, fu)];
                  notifyEntries = nts @ [storeEntry session message flags']
              in if length updateEntries \<ge> BULK_BATCH_SIZE then
                   (let w2 = bulkWrite (bulkResult env k) updateEntries w1
                    in case bulkError (bulkResult env k) of
                         Some err \<Rightarrow>
                           store_done env mailbox path update session (ReplyError err)
                             [] notifyEntries (Suc k) w2
                       | None \<Rightarrow>
                           store_processNext env mailbox path update session cursor [] [] (Suc k)
                             (fire (s_user_id session) path
                                (addEntries (s_user_id session) path notifyEntries w2)))
                 else store_processNext env mailbox path update session cursor
                        updateEntries notifyEntries k w1))"

definition onStore :: "env \<Rightarrow> string \<Rightarrow> store_update \<Rightarrow> session \<Rightarrow> world \<Rightarrow> reply \<times> world" where
  "onStore env path update session w =
     (case mailboxFindErr env of
        Some err \<Rightarrow> (ReplyError err, w)
      | None \<Rightarrow>
          (case findMailbox (s_user_id session) path w of
             None \<Rightarrow> (ReplyCode ''NONEXISTENT'', w)
           | Some mailbox \<Rightarrow>
               store_processNext env mailbox path update session
                 (cursor_of (cursorErr env) (findSorted (storeQuery mailbox update) w))
                 [] [] 0 w))"

section \<open>onExpunge\<close>

record expunge_update =
  xp_silent :: bool

text \<open>\<^verbatim>\<open>Number(x) || 0\<close> on a number.\<close>

definition numberOrZero :: "int \<Rightarrow> int" where
  "numberOrZero n = (if n \<noteq> 0 then n else 0)"

definition expungeQuery :: "mailbox \<Rightarrow> message \<Rightarrow> bool" where
  "expungeQuery mailbox m = (m_mailbox m = mb_id mailbox \<and> m_deleted m = True)"

definition expungeEntry :: "session \<Rightarrow> message \<Rightarrow> entry" where
  "expungeEntry session message =
     \<lparr>e_command = EXPUNGE, e_ignore = Some (s_id session), e_uid = m_uid message,
      e_flags = None, e_message = m_id message, e_modseq = None\<rparr>"

definition deleteOne :: "oid \<Rightarrow> world \<Rightarrow> world" where
  "deleteOne i w = w\<lparr>db_messages := deleteFirst (\<lambda>m. m_id m = i) (db_messages w)\<rparr>"

text \<open>
  The two writes on \<^verbatim>\<open>attachments.files\<close> whose error the handler ignores. A write that
  reports an error is modelled as not applied.
\<close>

definition unlinkMessage :: "error option \<Rightarrow> oid \<Rightarrow> world \<Rightarrow> world" where
  "unlinkMessage err i w =
     (case err of
        Some e \<Rightarrow> w
      | None \<Rightarrow> w\<lparr>db_attachments :=
                     map (\<lambda>a. a\<lparr>a_messages := removeAll i (a_messages a)\<rparr>) (db_attachments w)\<rparr>)"

definition sweepAttachments :: "error option \<Rightarrow> world \<Rightarrow> world" where
  "sweepAttachments err w =
     (case err of
        Some e \<Rightarrow> w
      | None \<Rightarrow> w\<lparr>db_attachments := filter (\<lambda>a. a_messages a \<noteq> []) (db_attachments w)\<rparr>)"

definition expunge_updateQuota :: "mailbox \<Rightarrow> nat \<Rightarrow> int \<Rightarrow> world \<Rightarrow> world" where
  "expunge_updateQuota mailbox deletedMessages deletedStorage w =
     (if deletedMessages = 0 then w
      else incStorageUsed (mb_user mailbox) (- deletedStorage) w)"

fun expunge_processNext ::
  "env \<Rightarrow> mailbox \<Rightarrow> string \<Rightarrow> expunge_update \<Rightarrow> session \<Rightarrow> message cursor_item list \<Rightarrow>
   nat \<Rightarrow> int \<Rightarrow> world \<Rightarrow> reply \<times> world" where
  "expunge_processNext env mailbox path update session [] deletedMessages deletedStorage w =
     (let w1 = expunge_updateQuota mailbox deletedMessages deletedStorage w;
          w2 = fire (s_user_id session) path w1;
          w3 = sweepAttachments (sweepErr env) w2
      in (ReplyOk, w3))"
| "expunge_processNext env mailbox path update session (NextError err # cursor)
     deletedMessages deletedStorage w =
     (ReplyError err, expunge_updateQuota mailbox deletedMessages deletedStorage w)"
| "expunge_processNext env mailbox path update session (NextDoc message # cursor)
     deletedMessages deletedStorage w =
     (let w1 = (if \<not> xp_silent update then writeResponse (ExpungeLine (m_uid message)) w else w)
      in case deleteErr env (m_id message) of
           Some err \<Rightarrow>
             (ReplyError err, expunge_updateQuota mailbox deletedMessages deletedStorage w1)
         | None \<Rightarrow>
             (let w2 = deleteOne (m_id message) w1;
                  w3 = unlinkMessage (unlinkErr env (m_id message)) (m_id message) w2;
                  w4 = addEntries (s_user_id session) path [expungeEntry session message] w3
              in expunge_processNext env mailbox path update session cursor
                   (Suc deletedMessages) (deletedStorage + numberOrZero (m_size message)) w4))"

definition onExpunge :: "env \<Rightarrow> string \<Rightarrow> expunge_update \<Rightarrow> session \<Rightarrow> world \<Rightarrow> reply \<times> world" where
  "onExpunge env path update session w =
     (case mailboxFindErr env of
        Some err \<Rightarrow> (ReplyError err, w)
      | None \<Rightarrow>
          (case findMailbox (s_user_id session) path w of
             None \<Rightarrow> (ReplyCode ''NONEXISTENT'', w)
           | Some mailbox \<Rightarrow>
               expunge_processNext env mailbox path update session
                 (cursor_of (cursorErr env) (findSorted (expungeQuery mailbox) w)) 0 0 w))"

section \<open>onCopy\<close>

record copy_update =
  cp_destination :: string
  cp_messages :: "nat list"

definition copyQuery :: "mailbox \<Rightarrow> copy_update \<Rightarrow> message \<Rightarrow> bool" where
  "copyQuery mailbox update m =
     (m_mailbox m = mb_id mailbox \<and> m_uid m \<in> set (cp_messages update))"

definition existsEntry :: "message \<Rightarrow> entry" where
  "existsEntry message =
     \<lparr>e_command = EXISTS, e_ignore = None, e_uid = m_uid message,
      e_flags = None, e_message = m_id message, e_modseq = None\<rparr>"

definition copy_updateQuota :: "mailbox \<Rightarrow> nat \<Rightarrow> int \<Rightarrow> world \<Rightarrow> world" where
  "copy_updateQuota mailbox copiedMessages copiedStorage w =
     (if copiedMessages = 0 then w
      else incStorageUsed (mb_user mailbox) copiedStorage w)"

text \<open>
  \<^verbatim>\<open>findOneAndUpdate({_id: target._id}, {$inc: {uidNext: 1}}, ...)\<close>: the document as it
  was before the increment (the driver's default), and the state after it.
\<close>

definition incUidNext :: "oid \<Rightarrow> world \<Rightarrow> mailbox option \<times> world" where
  "incUidNext i w =
     (find (\<lambda>b. mb_id b = i) (db_mailboxes w),
      w\<lparr>db_mailboxes := updateFirst (\<lambda>b. mb_id b = i)
                           (\<lambda>b. b\<lparr>mb_uidNext := mb_uidNext b + 1\<rparr>) (db_mailboxes w)\<rparr>)"

definition insertOne :: "message \<Rightarrow> world \<Rightarrow> world" where
  "insertOne m w = w\<lparr>db_messages := db_messages w @ [m]\<rparr>"

definition linkMessage :: "error option \<Rightarrow> oid \<Rightarrow> oid \<Rightarrow> world \<Rightarrow> world" where
  "linkMessage err sourceId newId w =
     (case err of
        Some e \<Rightarrow> w
      | None \<Rightarrow> w\<lparr>db_attachments :=
                     map (\<lambda>a. if sourceId \<in> set (a_messages a)
                               then a\<lparr>a_messages := a_messages a @ [newId]\<rparr> else a)
                       (db_attachments w)\<rparr>)"

text \<open>
  The document onCopy inserts: the source document with a new \<^verbatim>\<open>_id\<close>, the target as
  \<^verbatim>\<open>mailbox\<close>, the allocated \<^verbatim>\<open>uid\<close> and \<^verbatim>\<open>meta.source = 'IMAPCOPY'\<close>.
\<close>

definition copiedMessage :: "env \<Rightarrow> mailbox \<Rightarrow> message \<Rightarrow> nat \<Rightarrow> message" where
  "copiedMessage env target message uidNext =
     message\<lparr>m_id := newObjectID env (m_id message), m_mailbox := mb_id target,
             m_uid := uidNext, m_source := Some ''IMAPCOPY''\<rparr>"

text \<open>
  \<^verbatim>\<open>processNext\<close> of onCopy. \<^verbatim>\<open>sourceUid.unshift\<close> and \<^verbatim>\<open>destinationUid.unshift\<close> put
  the new element in front.
\<close>

fun copy_processNext ::
  "env \<Rightarrow> mailbox \<Rightarrow> mailbox \<Rightarrow> session \<Rightarrow> message cursor_item list \<Rightarrow>
   nat \<Rightarrow> int \<Rightarrow> nat list \<Rightarrow> nat list \<Rightarrow> world \<Rightarrow> reply \<times> world" where
  "copy_processNext env mailbox target session [] copiedMessages copiedStorage
     sourceUid destinationUid w =
     (let w1 = copy_updateQuota mailbox copiedMessages copiedStorage w;
          w2 = fire (s_user_id session) (mb_path target) w1
      in (ReplyCopied (mb_uidValidity target) sourceUid destinationUid, w2))"
| "copy_processNext env mailbox target session (NextError err # cursor) copiedMessages
     copiedStorage sourceUid destinationUid w =
     (ReplyError err, copy_updateQuota mailbox copiedMessages copiedStorage w)"
| "copy_processNext env mailbox target session (NextDoc message # cursor) copiedMessages
     copiedStorage sourceUid destinationUid w =
     (let sourceId = m_id message;
          sourceUid' = m_uid message # sourceUid
      in case uidNextErr env sourceId of
           Some err \<Rightarrow> (ReplyError err, copy_updateQuota mailbox copiedMessages copiedStorage w)
         | None \<Rightarrow>
             (case incUidNext (mb_id target) w of
                (None, w1) \<Rightarrow>
                  (ReplyCode ''TRYCREATE'',
                   copy_updateQuota mailbox copiedMessages copiedStorage w1)
              | (Some item, w1) \<Rightarrow>
                  (let uidNext = mb_uidNext item;
                       destinationUid' = uidNext # destinationUid;
                       message' = copiedMessage env target message uidNext
                   in case insertErr env sourceId of
                        Some err \<Rightarrow>
                          (ReplyError err,
                           copy_updateQuota mailbox copiedMessages copiedStorage w1)
                      | None \<Rightarrow>
                          (let w2 = insertOne message' w1;
                               w3 = linkMessage (linkErr env sourceId) sourceId (m_id message') w2;
                               w4 = addEntries (s_user_id session) (mb_path target)
                                      [existsEntry message'] w3
                           in copy_processNext env mailbox target session cursor
                                (Suc copiedMessages)
                                (copiedStorage + numberOrZero (m_size message'))
                                sourceUid' destinationUid' w4))))"

definition onCopy :: "env \<Rightarrow> string \<Rightarrow> copy_update \<Rightarrow> session \<Rightarrow> world \<Rightarrow> reply \<times> world" where
  "onCopy env path update session w =
     (case mailboxFindErr env of
        Some err \<Rightarrow> (ReplyError err, w)
      | None \<Rightarrow>
          (case findMailbox (s_user_id session) path w of
             None \<Rightarrow> (ReplyCode ''NONEXISTENT'', w)
           | Some mailbox \<Rightarrow>
               (case targetFindErr env of
                  Some err \<Rightarrow> (ReplyError err, w)
                | None \<Rightarrow>
                    (case findMailbox (s_user_id session) (cp_destination update) w of
                       None \<Rightarrow> (ReplyCode ''TRYCREATE'', w)
                     | Some target \<Rightarrow>
                         copy_processNext env mailbox target session
                           (cursor_of (cursorErr env) (findSorted (copyQuery mailbox update) w))
                           0 0 [] [] w))))"

section \<open>onFetch\<close>

text \<open>
  \<open>fo_changedSince = 0\<close> stands for a falsy \<^verbatim>\<open>options.changedSince\<close>. The projection
  (\<^verbatim>\<open>mimeTree\<close> unless \<^verbatim>\<open>metadataOnly\<close>) selects fields the model does not hold, and
  \<^verbatim>\<open>stream.description\<close> is a label for the log; neither is modelled.

  A stream either completes, and the callback of \<^verbatim>\<open>session.writeStream.write\<close> runs
  with the response written, or it emits \<^verbatim>\<open>error\<close>, and the error handler runs
  instead: \<open>streamErr env i\<close> says which, for the message with \<^verbatim>\<open>_id\<close> \<open>i\<close>.
\<close>

record fetch_options =
  fo_messages :: "nat list"
  fo_query :: "string list"
  fo_markAsSeen :: bool
  fo_changedSince :: nat
  fo_metadataOnly :: bool

definition fetchQuery :: "mailbox \<Rightarrow> fetch_options \<Rightarrow> message \<Rightarrow> bool" where
  "fetchQuery mailbox options m =
     (if fo_changedSince options \<noteq> 0
      then m_mailbox m = mb_id mailbox \<and> m_modseq m > fo_changedSince options \<and>
           m_uid m \<in> set (fo_messages options)
      else m_mailbox m = mb_id mailbox \<and> m_uid m \<in> set (fo_messages options))"

definition seenUpdate :: update_doc where
  "seenUpdate = \<lparr>upd_set = Some (emptySet\<lparr>set_seen := Some True\<rparr>),
                  upd_addToSet = Some [flagSeen], upd_pull = None\<rparr>"

definition fetchEntry :: "session \<Rightarrow> message \<Rightarrow> entry" where
  "fetchEntry session message =
     \<lparr>e_command = FETCH, e_ignore = Some (s_id session), e_uid = m_uid message,
      e_flags = Some (m_flags message), e_message = m_id message, e_modseq = None\<rparr>"

definition fetch_done ::
  "env \<Rightarrow> string \<Rightarrow> session \<Rightarrow> reply \<Rightarrow> bool \<Rightarrow> (oid \<times> update_doc) list \<Rightarrow> entry list \<Rightarrow>
   nat \<Rightarrow> world \<Rightarrow> reply \<times> world" where
  "fetch_done env path session args isUpdated updateEntries notifyEntries k w =
     (if updateEntries \<noteq> [] then
        (let w1 = bulkWrite (bulkResult env k) updateEntries w;
             w2 = addEntries (s_user_id session) path notifyEntries w1;
             w3 = fire (s_user_id session) path w2
         in (args, w3))
      else (args, if isUpdated then fire (s_user_id session) path w else w))"

definition streamError :: "world \<Rightarrow> world" where
  "streamError w =
     w\<lparr>socket := socket w @ [SocketWrite (''INTERNAL ERROR'' @ [CHR 0x0A]), SocketDestroy]\<rparr>"

fun fetch_processNext ::
  "env \<Rightarrow> string \<Rightarrow> fetch_options \<Rightarrow> session \<Rightarrow> message cursor_item list \<Rightarrow> bool \<Rightarrow>
   (oid \<times> update_doc) list \<Rightarrow> entry list \<Rightarrow> nat \<Rightarrow> world \<Rightarrow> reply \<times> world" where
  "fetch_processNext env path options session [] isUpdated ups nts k w =
     fetch_done env path session ReplyOk isUpdated ups nts k w"
| "fetch_processNext env path options session (NextError err # cursor) isUpdated ups nts k w =
     fetch_done env path session (ReplyError err) isUpdated ups nts k w"
| "fetch_processNext env path options session (NextDoc message # cursor) isUpdated ups nts k w =
     (let markAsSeen = (fo_markAsSeen options \<and> flagSeen \<notin> set (m_flags message));
          message' = (if markAsSeen then message\<lparr>m_flags := flagSeen # m_flags message\<rparr>
                      else message);
          stream = FetchValues (m_uid message') (fo_query options)
                     (getQueryResponse env (fo_query options) message')
      in case streamErr env (m_id message) of
           Some err \<Rightarrow>
             fetch_done env path session (ReplyError err) isUpdated ups nts k (streamError w)
         | None \<Rightarrow>
             (let w1 = writeResponse stream w
              in if \<not> markAsSeen
                 then fetch_processNext env path options session cursor isUpdated ups nts k w1
                 else
                   (let updateEntries = ups @ [(m_id message', seenUpdate)];
                        notifyEntries = nts @ [fetchEntry session message']
                    in if length updateEntries \<ge> BULK_BATCH_SIZE then
                         (let w2 = bulkWrite (bulkResult env k) updateEntries w1
                          in case bulkError (bulkResult env k) of
                               Some err \<Rightarrow>
                                 fetch_done env path session (ReplyError err) True
                                   [] notifyEntries (Suc k) w2
                             | None \<Rightarrow>
                                 fetch_processNext env path options session cursor True [] []
                                   (Suc k)
                                   (fire (s_user_id session) path
                                      (addEntries (s_user_id session) path notifyEntries w2)))
                       else fetch_processNext env path options session cursor True
                              updateEntries notifyEntries k w1)))"

definition onFetch :: "env \<Rightarrow> string \<Rightarrow> fetch_options \<Rightarrow> session \<Rightarrow> world \<Rightarrow> reply \<times> world" where
  "onFetch env path options session w =
     (case mailboxFindErr env of
        Some err \<Rightarrow> (ReplyError err, w)
      | None \<Rightarrow>
          (case findMailbox (s_user_id session) path w of
             None \<Rightarrow> (ReplyCode ''NONEXISTENT'', w)
           | Some mailbox \<Rightarrow>
               fetch_processNext env path options session
                 (cursor_of (cursorErr env) (findSorted (fetchQuery mailbox options) w))
                 False [] [] 0 w))"

section \<open>onSearch\<close>

text \<open>
  A search term by its \<^verbatim>\<open>key\<close>. The value of \<^verbatim>\<open>not\<close> and the entries of \<^verbatim>\<open>or\<close> are
  lists of terms (\<^verbatim>\<open>[].concat(term.value || [])\<close>); the value of \<^verbatim>\<open>uid\<close> is an array
  or a single number; \<open>TermFlag value exists\<close>; \<open>TermHeader header value\<close>; the date and
  size terms carry \<^verbatim>\<open>operator\<close> and the value, a date as the time of
  \<^verbatim>\<open>new Date(term.value + ' GMT')\<close> in milliseconds. \<open>TermOther\<close> is a key the
  \<^verbatim>\<open>switch\<close> has no case for.
\<close>

datatype uid_value = UidList "nat list" | UidOne nat

datatype search_term =
    TermAll
  | TermNot "search_term list"
  | TermOr "search_term list list"
  | TermText string
  | TermBody string
  | TermModseq nat
  | TermUid uid_value
  | TermFlag flag bool
  | TermHeader string string
  | TermInternaldate string int
  | TermHeaderdate string int
  | TermSize string int
  | TermOther string

record search_options =
  so_query :: "search_term list"

text \<open>
  The variables \<^verbatim>\<open>walkQuery\<close> closes over: \<^verbatim>\<open>hasAll\<close>, \<^verbatim>\<open>nothing\<close>, and the calls of
  \<^verbatim>\<open>callback\<close> made so far. \<^verbatim>\<open>query\<close> is reassigned to \<^verbatim>\<open>{mailbox: mailbox._id}\<close>
  exactly where \<^verbatim>\<open>hasAll\<close> becomes true, so the final query is read off \<open>hasAll\<close>.
\<close>

record walk_state =
  hasAll :: bool
  nothing :: bool
  calls :: "reply list"

definition regexSpecial :: "char list" where
  "regexSpecial = ''-/'' @ [backslash] @ ''^$*+?.()|[]{}''"

definition escapeRegex :: "string \<Rightarrow> string" where
  "escapeRegex s = concat (map (\<lambda>c. if c \<in> set regexSpecial then [backslash, c] else [c]) s)"

definition dateOp :: "string \<Rightarrow> string option" where
  "dateOp operator =
     (if operator = ''<'' then Some ''$lt''
      else if operator = ''<='' then Some ''$lte''
      else if operator = ''>'' then Some ''$gt''
      else if operator = ''>='' then Some ''$gte''
      else None)"

definition sizeOp :: "string \<Rightarrow> string" where
  "sizeOp operator = (case dateOp operator of None \<Rightarrow> ''$eq'' | Some op \<Rightarrow> op)"

definition dateEntry :: "string \<Rightarrow> int \<Rightarrow> range_entry" where
  "dateEntry operator v =
     (case dateOp operator of
        None \<Rightarrow> RangeDay v (v + 24 * 3600 * 1000)
      | Some op \<Rightarrow> RangeOp op v)"

text \<open>
  \<^verbatim>\<open>walkQuery(parent, ne, node)\<close> returns the clauses it pushes on \<^verbatim>\<open>parent\<close>, in order.
  \<open>walkTerms\<close> is the \<^verbatim>\<open>node.forEach\<close>, \<open>walkOr\<close> the \<^verbatim>\<open>forEach\<close> over the entries of
  an \<^verbatim>\<open>or\<close>, whose calls push on the new \<^verbatim>\<open>$or\<close> array. In the \<^verbatim>\<open>uid\<close> case
  \<^verbatim>\<open>return callback(...)\<close> returns from the arrow function given to \<^verbatim>\<open>forEach\<close>: the
  call is recorded and the iteration goes on with the next term.
\<close>

fun walkQuery :: "bool \<Rightarrow> search_term list \<Rightarrow> walk_state \<Rightarrow> clause list \<times> walk_state"
  and walkTerms :: "bool \<Rightarrow> search_term list \<Rightarrow> walk_state \<Rightarrow> clause list \<times> walk_state"
  and walkTerm :: "bool \<Rightarrow> search_term \<Rightarrow> walk_state \<Rightarrow> clause list \<times> walk_state"
  and walkOr :: "search_term list list \<Rightarrow> walk_state \<Rightarrow> clause list \<times> walk_state" where
  "walkQuery ne node st = (if hasAll st \<or> nothing st then ([], st) else walkTerms ne node st)"
| "walkTerms ne [] st = ([], st)"
| "walkTerms ne (t # ts) st =
     (case walkTerm ne t st of
        (cs1, st1) \<Rightarrow> (case walkTerms ne ts st1 of (cs2, st2) \<Rightarrow> (cs1 @ cs2, st2)))"
| "walkTerm ne TermAll st = (if \<not> ne then ([], st\<lparr>hasAll := True\<rparr>) else ([], st))"
| "walkTerm ne (TermNot val) st = walkQuery (\<not> ne) val st"
| "walkTerm ne (TermOr val) st = (case walkOr val st of (ors, st1) \<Rightarrow> ([ClauseOr ors], st1))"
| "walkTerm ne (TermText val) st =
     (if val \<noteq> [] \<and> \<not> ne then ([ClauseText val], st) else ([], st\<lparr>nothing := True\<rparr>))"
| "walkTerm ne (TermBody val) st =
     (if val \<noteq> [] \<and> \<not> ne then ([ClauseText val], st) else ([], st\<lparr>nothing := True\<rparr>))"
| "walkTerm ne (TermModseq val) st = ([ClauseModseq (if \<not> ne then ''$gte'' else ''$lt'') val], st)"
| "walkTerm ne (TermUid (UidList val)) st =
     (if val = [] then ([], st\<lparr>calls := calls st @ [ReplyFound [] 0]\<rparr>)
      else ([ClauseUidList (if \<not> ne then ''$in'' else ''$nin'') val], st))"
| "walkTerm ne (TermUid (UidOne val)) st = ([ClauseUid (if \<not> ne then ''$eq'' else ''$ne'') val], st)"
| "walkTerm ne (TermFlag val ex) st =
     (if val = flagSeen \<or> val = flagDeleted \<or> val = flagFlagged
      then (if ex then ([ClauseBool (drop 1 (toLowerCase val)) (\<not> ne)], st)
            else ([ClauseBool (drop 1 (toLowerCase val)) ne], st))
      else (if ex then ([ClauseFlags (if \<not> ne then ''$eq'' else ''$ne'') val], st)
            else ([ClauseFlags (if \<not> ne then ''$ne'' else ''$eq'') val], st)))"
| "walkTerm ne (TermHeader header val) st =
     (let regex = escapeRegex val
      in ([if val \<noteq> [] then ClauseHeaderMatch header regex ne else ClauseHeaderKey header ne], st))"
| "walkTerm ne (TermInternaldate operator val) st =
     ([ClauseInternaldate (dateEntry operator val) ne], st)"
| "walkTerm ne (TermHeaderdate operator val) st =
     ([ClauseHeaderdate (dateEntry operator val) ne], st)"
| "walkTerm ne (TermSize operator val) st =
     ([ClauseSize (sizeOp operator) (numberOrZero val) ne], st)"
| "walkTerm ne (TermOther key) st = ([], st)"
| "walkOr [] st = ([], st)"
| "walkOr (entry # es) st =
     (case walkQuery False entry st of
        (cs1, st1) \<Rightarrow> (case walkOr es st1 of (cs2, st2) \<Rightarrow> (cs1 @ cs2, st2)))"

text \<open>
  The database's reading of a query. Clauses over \<^verbatim>\<open>modseq\<close>, \<^verbatim>\<open>uid\<close>, the three
  booleans, \<^verbatim>\<open>flags\<close> and \<^verbatim>\<open>size\<close> are decided on the message record, the others by
  \<open>matchExternal\<close>. The database rejects a query whose \<^verbatim>\<open>$and\<close> or \<^verbatim>\<open>$or\<close> array is
  empty; that rejection is one of the errors \<open>cursorErr\<close> stands for, and the matcher
  reads an empty \<^verbatim>\<open>$and\<close> as true and an empty \<^verbatim>\<open>$or\<close> as false.
\<close>

definition compareOp :: "string \<Rightarrow> int \<Rightarrow> int \<Rightarrow> bool" where
  "compareOp op x v =
     (if op = ''$lt'' then x < v
      else if op = ''$lte'' then x \<le> v
      else if op = ''$gt'' then x > v
      else if op = ''$gte'' then x \<ge> v
      else if op = ''$eq'' then x = v
      else if op = ''$ne'' then x \<noteq> v
      else False)"

fun matchClause :: "env \<Rightarrow> message \<Rightarrow> clause \<Rightarrow> bool" where
  "matchClause env m (ClauseOr cs) = list_ex (matchClause env m) cs"
| "matchClause env m (ClauseModseq op v) = compareOp op (int (m_modseq m)) (int v)"
| "matchClause env m (ClauseUidList op l) =
     (if op = ''$in'' then m_uid m \<in> set l else m_uid m \<notin> set l)"
| "matchClause env m (ClauseUid op v) = compareOp op (int (m_uid m)) (int v)"
| "matchClause env m (ClauseBool field b) =
     (if field = ''seen'' then m_seen m = b
      else if field = ''flagged'' then m_flagged m = b
      else if field = ''deleted'' then m_deleted m = b
      else False)"
| "matchClause env m (ClauseFlags op v) =
     (if op = ''$eq'' then v \<in> set (m_flags m) else v \<notin> set (m_flags m))"
| "matchClause env m (ClauseSize op v neg) =
     (if neg then \<not> compareOp op (m_size m) v else compareOp op (m_size m) v)"
| "matchClause env m c = matchExternal env c m"

datatype search_query = QueryAll oid | QueryAnd oid "clause list"

definition matchQuery :: "env \<Rightarrow> search_query \<Rightarrow> message \<Rightarrow> bool" where
  "matchQuery env q m =
     (case q of
        QueryAll mb \<Rightarrow> m_mailbox m = mb
      | QueryAnd mb cs \<Rightarrow> m_mailbox m = mb \<and> list_all (matchClause env m) cs)"

fun search_processNext :: "message cursor_item list \<Rightarrow> nat \<Rightarrow> nat list \<Rightarrow> reply" where
  "search_processNext [] highestModseq uidList = ReplyFound uidList highestModseq"
| "search_processNext (NextError err # cursor) highestModseq uidList =
     ReplyError (Error ''Can not make requested search query'' None)"
| "search_processNext (NextDoc message # cursor) highestModseq uidList =
     search_processNext cursor
       (if highestModseq < m_modseq message then m_modseq message else highestModseq)
       (uidList @ [m_uid message])"

text \<open>
  The handler's result is the list of the calls of \<^verbatim>\<open>callback\<close> it makes, in order. The
  cursor has no \<^verbatim>\<open>sort\<close>: documents come in the collection's order.
\<close>

definition onSearch :: "env \<Rightarrow> string \<Rightarrow> search_options \<Rightarrow> session \<Rightarrow> world \<Rightarrow> reply list" where
  "onSearch env path options session w =
     (case mailboxFindErr env of
        Some err \<Rightarrow> [ReplyError err]
      | None \<Rightarrow>
          (case findMailbox (s_user_id session) path w of
             None \<Rightarrow> [ReplyCode ''NONEXISTENT'']
           | Some mailbox \<Rightarrow>
               (case walkQuery False (so_query options)
                       \<lparr>hasAll = False, nothing = False, calls = []\<rparr> of
                  (ands, st) \<Rightarrow>
                    (let query = (if hasAll st then QueryAll (mb_id mailbox)
                                  else QueryAnd (mb_id mailbox) ands)
                     in if nothing st then calls st @ [ReplyFound [] 0]
                        else calls st @
                             [search_processNext
                                (cursor_of (cursorErr env)
                                   (filter (matchQuery env query) (db_messages w))) 0 []]))))"

section \<open>Delivery of journal entries\<close>

text \<open>
  Modelled from the spec: the notifier (\<^verbatim>\<open>lib/imap-notifier\<close>) is not among the sources.
  Section 4.3 of the specification: \<^verbatim>\<open>fire\<close> delivers a change to every session whose
  selected mailbox matches, excluding the sessions whose id equals the entry's
  \<^verbatim>\<open>ignore\<close> field. \<open>receives sid e\<close>: a session with id \<open>sid\<close> that has the entry's mailbox
  selected is delivered \<open>e\<close>.
\<close>

definition receives :: "string \<Rightarrow> entry \<Rightarrow> bool" where
  "receives sid e = (e_ignore e \<noteq> Some sid)"

section \<open>onAuth\<close>

text \<open>
  \<^verbatim>\<open>server.loginLimiter\<close> (the rolling rate limiter) and \<^verbatim>\<open>bcrypt.compareSync\<close> are
  external libraries: the limiter's answer \<open>(err, timeLeft)\<close> for a key and the hash
  comparison are parameters. \<open>usersFindErr\<close> is the error, if any, that
  \<^verbatim>\<open>findOne\<close> on the users collection reports.
\<close>

record login =
  l_username :: "string option"
  l_password :: string

record auth_env =
  loginLimiter :: "string \<Rightarrow> error option \<times> nat"
  usersFindErr :: "error option"
  compareSync :: "string \<Rightarrow> string \<Rightarrow> bool"

datatype auth_reply =
    AuthError error
  | AuthNothing
  | AuthUser oid string

definition auth_username :: "login \<Rightarrow> string" where
  "auth_username lg = trim (case l_username lg of None \<Rightarrow> [] | Some n \<Rightarrow> n)"

definition findUser :: "string \<Rightarrow> user list \<Rightarrow> user option" where
  "findUser name us = find (\<lambda>u. u_username u = name) us"

definition onAuth :: "auth_env \<Rightarrow> login \<Rightarrow> session \<Rightarrow> user list \<Rightarrow> auth_reply" where
  "onAuth env lg sess us =
     (let username = auth_username lg in
      case loginLimiter env (username @ '':'' @ s_remoteAddress sess) of
        (Some err, _) \<Rightarrow> AuthError err
      | (None, timeLeft) \<Rightarrow>
          if timeLeft \<noteq> 0
          then AuthError (Error ''Too many logins, try again later'' (Some ''NO''))
          else (case usersFindErr env of
                  Some err \<Rightarrow> AuthError err
                | None \<Rightarrow>
                    (case findUser username us of
                       None \<Rightarrow> AuthNothing
                     | Some u \<Rightarrow>
                         if \<not> compareSync env (l_password lg) (u_password u)
                         then AuthNothing
                         else AuthUser (u_id u) username)))"

section \<open>Concrete settings\<close>

definition ex_alice :: user where
  "ex_alice = \<lparr>u_id = 1, u_username = ''alice'', u_password = ''hash(secret)'',
                u_quota = 0, u_storageUsed = 0\<rparr>"

definition ex_users :: "user list" where
  "ex_users = [ex_alice]"

definition ex_session :: session where
  "ex_session = \<lparr>s_id = ''sess-A'', s_user_id = 1, s_username = ''alice'',
                  s_remoteAddress = ''10.0.0.7''\<rparr>"

definition ex_auth_env :: auth_env where
  "ex_auth_env = \<lparr>loginLimiter = (\<lambda>key. (None, 0)), usersFindErr = None,
                   compareSync = (\<lambda>pw hash. hash = ''hash('' @ pw @ '')'')\<rparr>"

definition ex_env :: env where
  "ex_env = \<lparr>mailboxFindErr = None, targetFindErr = None, cursorErr = None,
              bulkResult = (\<lambda>k. BulkOk), deleteErr = (\<lambda>i. None), unlinkErr = (\<lambda>i. None),
              sweepErr = None, uidNextErr = (\<lambda>i. None), insertErr = (\<lambda>i. None),
              linkErr = (\<lambda>i. None), newObjectID = (\<lambda>i. i + 1000), streamErr = (\<lambda>i. None),
              getQueryResponse = (\<lambda>q m. q),
              systemFlags = [backslash # ''Answered'', flagFlagged, backslash # ''Draft'',
                             flagDeleted, flagSeen],
              matchExternal = (\<lambda>c m. False)\<rparr>"

definition ex_mailbox :: "oid \<Rightarrow> string \<Rightarrow> nat \<Rightarrow> mailbox" where
  "ex_mailbox i path n =
     \<lparr>mb_id = i, mb_user = 1, mb_path = path, mb_uidValidity = 1700000000 + i,
      mb_uidNext = n, mb_modifyIndex = 5, mb_subscribed = True, mb_flags = []\<rparr>"

definition ex_message :: "oid \<Rightarrow> oid \<Rightarrow> nat \<Rightarrow> nat \<Rightarrow> flag list \<Rightarrow> int \<Rightarrow> message" where
  "ex_message i mb u ms fs sz =
     \<lparr>m_id = i, m_mailbox = mb, m_uid = u, m_modseq = ms, m_flags = fs,
      m_seen = (flagSeen \<in> set fs), m_flagged = (flagFlagged \<in> set fs),
      m_deleted = (flagDeleted \<in> set fs), m_size = sz, m_source = Some ''IMAP''\<rparr>"

definition ex_world :: "mailbox list \<Rightarrow> message list \<Rightarrow> world" where
  "ex_world bs ms =
     \<lparr>db_users = ex_users, db_mailboxes = bs, db_messages = ms, db_attachments = [],
      journal = [], fired = [], written = [], socket = []\<rparr>"

definition ex_store :: "action \<Rightarrow> flag list \<Rightarrow> nat list \<Rightarrow> nat \<Rightarrow> bool \<Rightarrow> store_update" where
  "ex_store a fs uids m silent =
     \<lparr>up_action = a, up_value = fs, up_messages = uids, up_unchangedSince = m,
      up_silent = silent, up_isUid = True\<rparr>"

definition ex_inbox :: mailbox where
  "ex_inbox = ex_mailbox 10 ''INBOX'' 3"

text \<open>
  INBOX with message 100 (uid 1, modseq 3, no flags), and INBOX with message 101 (uid 2,
  modseq 5, flag \<^verbatim>\<open>\Seen\<close>) beside it.
\<close>

definition ex_world1 :: world where
  "ex_world1 = ex_world [ex_inbox] [ex_message 100 10 1 3 [] 512]"

definition ex_world2 :: world where
  "ex_world2 = ex_world [ex_inbox]
                 [ex_message 100 10 1 3 [] 512, ex_message 101 10 2 5 [flagSeen] 256]"

text \<open>
  INBOX with message 100 carrying \<^verbatim>\<open>\Seen\<close> and \<^verbatim>\<open>\Deleted\<close>.
\<close>

definition ex_world3 :: world where
  "ex_world3 = ex_world [ex_inbox] [ex_message 100 10 1 3 [flagSeen, flagDeleted] 512]"

text \<open>
  Drafts with UIDs 7 and 9 (the collection holds 9 first), Archive with
  \<^verbatim>\<open>uidNext = 40\<close>, and the command \<^verbatim>\<open>UID COPY 7,9 Archive\<close>.
\<close>

definition ex_drafts :: mailbox where
  "ex_drafts = ex_mailbox 20 ''Drafts'' 10"

definition ex_archive :: mailbox where
  "ex_archive = ex_mailbox 30 ''Archive'' 40"

definition ex_copy_world :: world where
  "ex_copy_world = ex_world [ex_drafts, ex_archive]
                     [ex_message 201 20 9 2 [] 300, ex_message 200 20 7 1 [flagDeleted] 200]"

definition ex_copy :: copy_update where
  "ex_copy = \<lparr>cp_destination = ''Archive'', cp_messages = [7, 9]\<rparr>"

text \<open>
  INBOX with UIDs 10, 11, 12, of which 11 (300 octets) is marked \<^verbatim>\<open>\Deleted\<close>; the user
  has 900 octets in use; one attachment is linked to message 111. In \<open>ex_sweep_fails\<close>
  the sweep of \<^verbatim>\<open>attachments.files\<close> reports an error.
\<close>

definition ex_expunge_world :: world where
  "ex_expunge_world =
     (ex_world [ex_mailbox 10 ''INBOX'' 13]
        [ex_message 110 10 10 1 [] 100, ex_message 111 10 11 2 [flagDeleted] 300,
         ex_message 112 10 12 3 [] 500])
     \<lparr>db_users := [ex_alice\<lparr>u_storageUsed := 900\<rparr>],
      db_attachments := [\<lparr>a_id = 7, a_messages = [111]\<rparr>]\<rparr>"

definition ex_sweep_fails :: env where
  "ex_sweep_fails = ex_env\<lparr>sweepErr := Some (Error ''sweep failed'' None)\<rparr>"

text \<open>
  An environment in which the stream of message 101 emits an error, and a FETCH of the
  bodies of UIDs 1 and 2 that marks them seen.
\<close>

definition ex_stream_fails :: env where
  "ex_stream_fails =
     ex_env\<lparr>streamErr := (\<lambda>i. if i = 101 then Some (Error ''stream torn'' None) else None)\<rparr>"

definition ex_fetch :: fetch_options where
  "ex_fetch = \<lparr>fo_messages = [1, 2], fo_query = [''BODY[]''], fo_markAsSeen = True,
               fo_changedSince = 0, fo_metadataOnly = False\<rparr>"

section \<open>Notions used to state the properties\<close>

text \<open>
  The documents onExpunge deletes: those the cursor yields before the first error of
  \<^verbatim>\<open>cursor.next\<close> or of \<^verbatim>\<open>deleteOne\<close>.
\<close>

fun expunged :: "env \<Rightarrow> message cursor_item list \<Rightarrow> message list" where
  "expunged env [] = []"
| "expunged env (NextError err # cursor) = []"
| "expunged env (NextDoc message # cursor) =
     (case deleteErr env (m_id message) of
        Some err \<Rightarrow> []
      | None \<Rightarrow> message # expunged env cursor)"

text \<open>\<open>outside I x y\<close>: a document whose \<^verbatim>\<open>_id\<close> is not in \<open>I\<close> is unchanged.\<close>

definition outside :: "oid set \<Rightarrow> message \<Rightarrow> message \<Rightarrow> bool" where
  "outside I x y = (m_id x \<notin> I \<longrightarrow> y = x)"

text \<open>
  The denormalized booleans of a message agree with its flags.
\<close>

definition denormConsistent :: "message \<Rightarrow> bool" where
  "denormConsistent m =
     (m_seen m = (flagSeen \<in> set (m_flags m)) \<and>
      m_flagged m = (flagFlagged \<in> set (m_flags m)) \<and>
      m_deleted m = (flagDeleted \<in> set (m_flags m)))"

section \<open>Lemmas on the store loop\<close>

lemma addEntries_fields [simp]:
  "db_users (addEntries u p es w) = db_users w"
  "db_mailboxes (addEntries u p es w) = db_mailboxes w"
  "db_messages (addEntries u p es w) = db_messages w"
  "db_attachments (addEntries u p es w) = db_attachments w"
  "journal (addEntries u p es w) = journal w @ map (\<lambda>e. (u, p, e)) es"
  "fired (addEntries u p es w) = fired w"
  "written (addEntries u p es w) = written w"
  "socket (addEntries u p es w) = socket w"
  by (simp_all add: addEntries_def)

lemma fire_fields [simp]:
  "db_users (fire u p w) = db_users w"
  "db_mailboxes (fire u p w) = db_mailboxes w"
  "db_messages (fire u p w) = db_messages w"
  "db_attachments (fire u p w) = db_attachments w"
  "journal (fire u p w) = journal w"
  "fired (fire u p w) = fired w @ [(u, p)]"
  "written (fire u p w) = written w"
  "socket (fire u p w) = socket w"
  by (simp_all add: fire_def)

lemma writeResponse_fields [simp]:
  "db_users (writeResponse r w) = db_users w"
  "db_mailboxes (writeResponse r w) = db_mailboxes w"
  "db_messages (writeResponse r w) = db_messages w"
  "db_attachments (writeResponse r w) = db_attachments w"
  "journal (writeResponse r w) = journal w"
  "fired (writeResponse r w) = fired w"
  "written (writeResponse r w) = written w @ [r]"
  "socket (writeResponse r w) = socket w"
  by (simp_all add: writeResponse_def)

lemma bulkWrite_fields [simp]:
  "db_users (bulkWrite out ops w) = db_users w"
  "db_mailboxes (bulkWrite out ops w) = db_mailboxes w"
  "db_messages (bulkWrite out ops w) =
     foldl (\<lambda>ms op. updateOne op ms) (db_messages w) (appliedOps out ops)"
  "db_attachments (bulkWrite out ops w) = db_attachments w"
  "journal (bulkWrite out ops w) = journal w"
  "fired (bulkWrite out ops w) = fired w"
  "written (bulkWrite out ops w) = written w"
  "socket (bulkWrite out ops w) = socket w"
  by (simp_all add: bulkWrite_def)

lemma updateMailboxFlags_fields [simp]:
  "db_users (updateMailboxFlags env mailbox update w) = db_users w"
  "db_messages (updateMailboxFlags env mailbox update w) = db_messages w"
  "db_attachments (updateMailboxFlags env mailbox update w) = db_attachments w"
  "journal (updateMailboxFlags env mailbox update w) = journal w"
  "fired (updateMailboxFlags env mailbox update w) = fired w"
  "written (updateMailboxFlags env mailbox update w) = written w"
  "socket (updateMailboxFlags env mailbox update w) = socket w"
  by (simp_all add: updateMailboxFlags_def Let_def)

lemma map_updateFirst_inv:
  "(\<And>x. g (f x) = g x) \<Longrightarrow> map g (updateFirst p f xs) = map g xs"
  by (induction xs) auto

lemma updateMailboxFlags_modifyIndex [simp]:
  "map mb_modifyIndex (db_mailboxes (updateMailboxFlags env mailbox update w))
     = map mb_modifyIndex (db_mailboxes w)"
  by (simp add: updateMailboxFlags_def Let_def map_updateFirst_inv)

lemma store_done_fst [simp]:
  "fst (store_done env mailbox path update session args ups nts k w) = args"
  by (simp add: store_done_def Let_def split: reply.splits)

lemma appliedOps_BulkOk [simp]: "appliedOps BulkOk ops = ops"
  by (simp add: appliedOps_def)

lemma bulkError_BulkOk [simp]: "bulkError BulkOk = None"
  by (simp add: bulkError_def)

lemma store_done_journal:
  "journal (snd (store_done env mailbox path update session args ups nts k w)) =
     (if ups \<noteq> [] then journal w @ map (\<lambda>e. (s_user_id session, path, e)) nts else journal w)"
  by (simp add: store_done_def Let_def split: reply.splits)

lemma store_journal_ok:
  assumes "\<forall>k. bulkResult env k = BulkOk"
  shows "length nts = length ups \<Longrightarrow>
    journal (snd (store_processNext env mailbox path update session (map NextDoc rows) ups nts k w))
    = journal w @ map (\<lambda>e. (s_user_id session, path, e))
        (nts @ map (\<lambda>m. storeEntry session m (fst (storeFlags update (m_flags m))))
                 (filter (\<lambda>m. snd (storeFlags update (m_flags m)) \<noteq> None) rows))"
proof (induction rows arbitrary: ups nts k w)
  case Nil
  then show ?case by (auto simp: store_done_journal)
next
  case (Cons m rows)
  show ?case
  proof (cases "snd (storeFlags update (m_flags m))")
    case None
    then show ?thesis using Cons by (simp add: Let_def)
  next
    case (Some fu)
    then show ?thesis using Cons assms 
      by (simp add: Let_def store_done_journal)
  qed
qed

lemma foldl_updateOne_append:
  "foldl (\<lambda>ms op. updateOne op ms) ms (xs @ ys)
     = foldl (\<lambda>ms op. updateOne op ms) (foldl (\<lambda>ms op. updateOne op ms) ms xs) ys"
  by simp

lemma store_done_messages:
  "db_messages (snd (store_done env mailbox path update session args ups nts k w)) =
     foldl (\<lambda>ms op. updateOne op ms) (db_messages w) (appliedOps (bulkResult env k) ups)"
  by (simp add: store_done_def Let_def appliedOps_def split: reply.splits bulk_outcome.splits)

lemma store_messages_ok:
  assumes "\<forall>k. bulkResult env k = BulkOk"
  shows
    "db_messages (snd (store_processNext env mailbox path update session (map NextDoc rows) ups nts k w))
     = foldl (\<lambda>ms op. updateOne op ms) (db_messages w)
         (ups @ List.map_filter (\<lambda>m. map_option (Pair (m_id m)) (snd (storeFlags update (m_flags m)))) rows)"
proof (induction rows arbitrary: ups nts k w)
  case Nil
  then show ?case using assms by (simp add: store_done_messages)
next
  case (Cons m rows)
  show ?case
  proof (cases "snd (storeFlags update (m_flags m))")
    case None
    then show ?thesis using Cons by (simp add: Let_def)
  next
    case (Some fu)
    then show ?thesis using Cons assms
      by (simp add: Let_def store_done_messages)
  qed
qed

lemma store_written_ok:
  assumes "\<forall>k. bulkResult env k = BulkOk"
  shows
    "written (snd (store_processNext env mailbox path update session (map NextDoc rows) ups nts k w))
     = written w @
       (if up_silent update then []
        else map (\<lambda>m. FetchFlags (m_uid m) (if up_isUid update then Some (m_uid m) else None)
                        (fst (storeFlags update (m_flags m)))) rows)"
proof (induction rows arbitrary: ups nts k w)
  case Nil
  then show ?case by (simp add: store_done_def Let_def split: reply.splits)
next
  case (Cons m rows)
  show ?case
  proof (cases "snd (storeFlags update (m_flags m))")
    case None
    then show ?thesis using Cons by (simp add: Let_def)
  next
    case (Some fu)
    then show ?thesis using Cons assms by (simp add: Let_def)
  qed
qed

lemma store_reply_ok:
  assumes "\<forall>k. bulkResult env k = BulkOk"
  shows "fst (store_processNext env mailbox path update session (map NextDoc rows) ups nts k w) = ReplyOk"
proof (induction rows arbitrary: ups nts k w)
  case Nil
  then show ?case by simp
next
  case (Cons m rows)
  then show ?case using assms by (cases "snd (storeFlags update (m_flags m))") (simp_all add: Let_def)
qed

lemma store_done_modifyIndex:
  "map mb_modifyIndex (db_mailboxes (snd (store_done env mailbox path update session args ups nts k w)))
     = map mb_modifyIndex (db_mailboxes w)"
  by (simp add: store_done_def Let_def split: reply.splits)

lemma store_modifyIndex:
  "map mb_modifyIndex (db_mailboxes (snd (store_processNext env mailbox path update session cursor ups nts k w)))
     = map mb_modifyIndex (db_mailboxes w)"
proof (induction cursor arbitrary: ups nts k w)
  case Nil
  then show ?case by (simp add: store_done_modifyIndex)
next
  case (Cons c cursor)
  show ?case
  proof (cases c)
    case (NextError err)
    then show ?thesis by (simp add: store_done_modifyIndex)
  next
    case (NextDoc m)
    then show ?thesis using Cons
      by (simp add: Let_def store_done_modifyIndex split: option.splits)
  qed
qed

lemma applyUpdate_keeps [simp]:
  "m_id (applyUpdate u m) = m_id m"
  "m_mailbox (applyUpdate u m) = m_mailbox m"
  "m_uid (applyUpdate u m) = m_uid m"
  "m_modseq (applyUpdate u m) = m_modseq m"
  "m_size (applyUpdate u m) = m_size m"
  by (simp_all add: applyUpdate_def applySet_def Let_def split: option.splits)

lemma foldl_updateOne_modseq:
  "map m_modseq (foldl (\<lambda>ms op. updateOne op ms) ms ops) = map m_modseq ms"
  by (induction ops arbitrary: ms) (simp_all add: updateOne_def map_updateFirst_inv)

lemma store_modseq:
  "map m_modseq (db_messages (snd (store_processNext env mailbox path update session cursor ups nts k w)))
     = map m_modseq (db_messages w)"
proof (induction cursor arbitrary: ups nts k w)
  case Nil
  then show ?case by (simp add: store_done_messages foldl_updateOne_modseq)
next
  case (Cons c cursor)
  show ?case
  proof (cases c)
    case (NextError err)
    then show ?thesis by (simp add: store_done_messages foldl_updateOne_modseq)
  next
    case (NextDoc m)
    then show ?thesis using Cons
      by (simp add: Let_def store_done_messages foldl_updateOne_modseq split: option.splits)
  qed
qed

lemma store_reply_shape:
  "fst (store_processNext env mailbox path update session cursor ups nts k w) = ReplyOk \<or>
   (\<exists>err. fst (store_processNext env mailbox path update session cursor ups nts k w) = ReplyError err)"
proof (induction cursor arbitrary: ups nts k w)
  case Nil
  then show ?case by simp
next
  case (Cons c cursor)
  show ?case
  proof (cases c)
    case (NextError err)
    then show ?thesis by simp
  next
    case (NextDoc m)
    then show ?thesis using Cons
      by (simp add: Let_def split: option.splits)
  qed
qed

lemma outside_refl: "list_all2 (outside I) ms ms"
  by (simp add: list_all2_same outside_def)

lemma outside_trans:
  "list_all2 (outside I) xs ys \<Longrightarrow> list_all2 (outside I) ys zs \<Longrightarrow> list_all2 (outside I) xs zs"
  using list_all2_trans [of "outside I" "outside I" "outside I" xs ys zs]
  by (auto simp: outside_def)

lemma updateFirst_outside:
  "list_all2 (\<lambda>x y. \<not> p x \<longrightarrow> y = x) xs (updateFirst p f xs)"
  by (induction xs) (simp_all add: list_all2_same)

lemma updateOne_outside:
  assumes "fst op \<in> I"
  shows "list_all2 (outside I) ms (updateOne op ms)"
  unfolding updateOne_def
  by (rule list_all2_mono [OF updateFirst_outside]) (use assms in \<open>auto simp: outside_def\<close>)

lemma foldl_updateOne_outside:
  "\<forall>op\<in>set ops. fst op \<in> I \<Longrightarrow> list_all2 (outside I) ms0 ms \<Longrightarrow>
   list_all2 (outside I) ms0 (foldl (\<lambda>ms op. updateOne op ms) ms ops)"
proof (induction ops arbitrary: ms)
  case Nil
  then show ?case by simp
next
  case (Cons op ops)
  have "list_all2 (outside I) ms (updateOne op ms)"
    using Cons.prems by (simp add: updateOne_outside)
  then have "list_all2 (outside I) ms0 (updateOne op ms)"
    using Cons.prems(2) outside_trans by blast
  then show ?case using Cons by simp
qed

lemma set_appliedOps: "set (appliedOps out ops) \<subseteq> set ops"
  by (cases out) (auto simp: appliedOps_def in_set_enumerate_eq)

lemma bulk_outside:
  "\<forall>op\<in>set ops. fst op \<in> I \<Longrightarrow> list_all2 (outside I) ms0 ms \<Longrightarrow>
   list_all2 (outside I) ms0 (foldl (\<lambda>ms op. updateOne op ms) ms (appliedOps out ops))"
  using set_appliedOps [of out ops] by (intro foldl_updateOne_outside) blast+

lemma store_done_outside:
  "\<forall>op\<in>set ups. fst op \<in> I \<Longrightarrow> list_all2 (outside I) ms0 (db_messages w) \<Longrightarrow>
   list_all2 (outside I) ms0
     (db_messages (snd (store_done env mailbox path update session args ups nts k w)))"
  by (simp add: store_done_messages bulk_outside)

lemma store_outside:
  "\<forall>op\<in>set ups. fst op \<in> I \<Longrightarrow> \<forall>m. NextDoc m \<in> set cursor \<longrightarrow> m_id m \<in> I \<Longrightarrow>
   list_all2 (outside I) ms0 (db_messages w) \<Longrightarrow>
   list_all2 (outside I) ms0
     (db_messages (snd (store_processNext env mailbox path update session cursor ups nts k w)))"
proof (induction cursor arbitrary: ups nts k w)
  case Nil
  then show ?case by (simp add: store_done_outside)
next
  case (Cons c cursor)
  show ?case
  proof (cases c)
    case (NextError err)
    then show ?thesis using Cons.prems by (simp add: store_done_outside)
  next
    case (NextDoc m)
    have mI: "m_id m \<in> I" using Cons.prems NextDoc by simp
    have rest: "\<forall>m. NextDoc m \<in> set cursor \<longrightarrow> m_id m \<in> I" using Cons.prems by simp
    show ?thesis
    proof (cases "snd (storeFlags update (m_flags m))")
      case None
      then show ?thesis using NextDoc Cons.IH [OF Cons.prems(1) rest] Cons.prems(3)
        by (simp add: Let_def)
    next
      case (Some fu)
      let ?ups = "ups @ [(m_id m, fu)]"
      have upsI: "\<forall>op\<in>set ?ups. fst op \<in> I" using Cons.prems(1) mI by simp
      have step: "list_all2 (outside I) ms0
            (foldl (\<lambda>ms op. updateOne op ms) (db_messages w) (appliedOps (bulkResult env k) ?ups))"
        using upsI Cons.prems(3) by (rule bulk_outside)
      have nil: "\<forall>op\<in>set ([] :: (oid \<times> update_doc) list). fst op \<in> I" by simp
      show ?thesis
        using NextDoc Some Cons.IH [OF upsI rest] Cons.IH [OF nil rest] Cons.prems(3) step
              store_done_outside [OF nil, of ms0]
        by (simp add: Let_def split: option.splits)
    qed
  qed
qed

lemma cursor_of_docs: "NextDoc m \<in> set (cursor_of ce rows) \<Longrightarrow> m \<in> set rows"
  by (auto simp: cursor_of_def split: option.splits if_splits dest: in_set_takeD)

lemma outside_query:
  assumes "distinct (map m_id (db_messages w))" "x \<in> set (db_messages w)" "\<not> q x"
  shows "m_id x \<notin> m_id ` set (findSorted q w)"
proof
  assume "m_id x \<in> m_id ` set (findSorted q w)"
  then obtain r where r: "r \<in> set (db_messages w)" "q r" "m_id r = m_id x"
    by (auto simp: findSorted_def)
  have "inj_on m_id (set (db_messages w))"
    using assms(1) by (simp add: distinct_map)
  then have "r = x" using r assms(2) by (auto dest: inj_onD)
  then show False using r assms(3) by simp
qed

section \<open>Lemmas on the expunge loop\<close>

lemma incStorageUsed_fields [simp]:
  "db_mailboxes (incStorageUsed u d w) = db_mailboxes w"
  "db_messages (incStorageUsed u d w) = db_messages w"
  "db_attachments (incStorageUsed u d w) = db_attachments w"
  "journal (incStorageUsed u d w) = journal w"
  "fired (incStorageUsed u d w) = fired w"
  "written (incStorageUsed u d w) = written w"
  "socket (incStorageUsed u d w) = socket w"
  by (simp_all add: incStorageUsed_def)

lemma deleteOne_fields [simp]:
  "db_users (deleteOne i w) = db_users w"
  "db_mailboxes (deleteOne i w) = db_mailboxes w"
  "db_messages (deleteOne i w) = deleteFirst (\<lambda>m. m_id m = i) (db_messages w)"
  "db_attachments (deleteOne i w) = db_attachments w"
  "journal (deleteOne i w) = journal w"
  "fired (deleteOne i w) = fired w"
  "written (deleteOne i w) = written w"
  "socket (deleteOne i w) = socket w"
  by (simp_all add: deleteOne_def)

lemma unlinkMessage_fields [simp]:
  "db_users (unlinkMessage err i w) = db_users w"
  "db_mailboxes (unlinkMessage err i w) = db_mailboxes w"
  "db_messages (unlinkMessage err i w) = db_messages w"
  "journal (unlinkMessage err i w) = journal w"
  "fired (unlinkMessage err i w) = fired w"
  "written (unlinkMessage err i w) = written w"
  "socket (unlinkMessage err i w) = socket w"
  by (simp_all add: unlinkMessage_def split: option.splits)

lemma sweepAttachments_fields [simp]:
  "db_users (sweepAttachments err w) = db_users w"
  "db_mailboxes (sweepAttachments err w) = db_mailboxes w"
  "db_messages (sweepAttachments err w) = db_messages w"
  "journal (sweepAttachments err w) = journal w"
  "fired (sweepAttachments err w) = fired w"
  "written (sweepAttachments err w) = written w"
  "socket (sweepAttachments err w) = socket w"
  by (simp_all add: sweepAttachments_def split: option.splits)

lemma expunge_updateQuota_fields [simp]:
  "db_mailboxes (expunge_updateQuota mailbox dm ds w) = db_mailboxes w"
  "db_messages (expunge_updateQuota mailbox dm ds w) = db_messages w"
  "db_attachments (expunge_updateQuota mailbox dm ds w) = db_attachments w"
  "journal (expunge_updateQuota mailbox dm ds w) = journal w"
  "fired (expunge_updateQuota mailbox dm ds w) = fired w"
  "written (expunge_updateQuota mailbox dm ds w) = written w"
  "socket (expunge_updateQuota mailbox dm ds w) = socket w"
  by (simp_all add: expunge_updateQuota_def)

lemma numberOrZero_id [simp]: "numberOrZero n = n"
  by (simp add: numberOrZero_def)

lemma expunge_messages:
  "db_messages (snd (expunge_processNext env mailbox path update session cursor dm ds w))
     = foldl (\<lambda>ms m. deleteFirst (\<lambda>x. m_id x = m_id m) ms) (db_messages w) (expunged env cursor)"
proof (induction cursor arbitrary: dm ds w)
  case Nil
  then show ?case by (simp add: Let_def)
next
  case (Cons c cursor)
  then show ?case by (cases c) (simp_all add: Let_def split: option.splits)
qed

lemma expunge_mailboxes:
  "db_mailboxes (snd (expunge_processNext env mailbox path update session cursor dm ds w))
     = db_mailboxes w"
proof (induction cursor arbitrary: dm ds w)
  case Nil
  then show ?case by (simp add: Let_def)
next
  case (Cons c cursor)
  then show ?case by (cases c) (simp_all add: Let_def split: option.splits)
qed

lemma expunge_users:
  "db_users (snd (expunge_processNext env mailbox path update session cursor dm ds w))
     = db_users (expunge_updateQuota mailbox (dm + length (expunged env cursor))
                   (ds + sum_list (map m_size (expunged env cursor))) w)"
proof (induction cursor arbitrary: dm ds w)
  case Nil
  then show ?case by (simp add: Let_def)
next
  case (Cons c cursor)
  show ?case
  proof (cases c)
    case (NextError err)
    then show ?thesis by simp
  next
    case (NextDoc m)
    then show ?thesis using Cons
      by (simp add: Let_def expunge_updateQuota_def incStorageUsed_def algebra_simps
               split: option.splits)
  qed
qed

lemma expunged_all:
  "\<forall>i. deleteErr env i = None \<Longrightarrow> expunged env (map NextDoc rows) = rows"
  by (induction rows) simp_all

lemma expunge_reply_ok:
  "\<forall>i. deleteErr env i = None \<Longrightarrow>
   fst (expunge_processNext env mailbox path update session (map NextDoc rows) dm ds w) = ReplyOk"
  by (induction rows arbitrary: dm ds w) (simp_all add: Let_def)

lemma expunge_reply_sweep:
  "fst (expunge_processNext (env\<lparr>sweepErr := se\<rparr>) mailbox path update session cursor dm ds w)
     = fst (expunge_processNext env mailbox path update session cursor dm ds w)"
proof (induction cursor arbitrary: dm ds w)
  case Nil
  then show ?case by (simp add: Let_def)
next
  case (Cons c cursor)
  show ?case
  proof (cases c)
    case (NextError err)
    then show ?thesis by simp
  next
    case (NextDoc m)
    show ?thesis
    proof (cases "deleteErr env (m_id m)")
      case None
      then show ?thesis using NextDoc Cons by (simp add: Let_def)
    next
      case (Some a)
      then show ?thesis using NextDoc by (simp add: Let_def)
    qed
  qed
qed

section \<open>Lemmas on the copy loop\<close>

lemma insertOne_fields [simp]:
  "db_users (insertOne m w) = db_users w"
  "db_mailboxes (insertOne m w) = db_mailboxes w"
  "db_messages (insertOne m w) = db_messages w @ [m]"
  "db_attachments (insertOne m w) = db_attachments w"
  "journal (insertOne m w) = journal w"
  "fired (insertOne m w) = fired w"
  "written (insertOne m w) = written w"
  "socket (insertOne m w) = socket w"
  by (simp_all add: insertOne_def)

lemma linkMessage_fields [simp]:
  "db_users (linkMessage err i j w) = db_users w"
  "db_mailboxes (linkMessage err i j w) = db_mailboxes w"
  "db_messages (linkMessage err i j w) = db_messages w"
  "journal (linkMessage err i j w) = journal w"
  "fired (linkMessage err i j w) = fired w"
  "written (linkMessage err i j w) = written w"
  "socket (linkMessage err i j w) = socket w"
  by (simp_all add: linkMessage_def split: option.splits)

lemma copy_updateQuota_fields [simp]:
  "db_mailboxes (copy_updateQuota mailbox cm cs w) = db_mailboxes w"
  "db_messages (copy_updateQuota mailbox cm cs w) = db_messages w"
  "db_attachments (copy_updateQuota mailbox cm cs w) = db_attachments w"
  "journal (copy_updateQuota mailbox cm cs w) = journal w"
  "fired (copy_updateQuota mailbox cm cs w) = fired w"
  "written (copy_updateQuota mailbox cm cs w) = written w"
  "socket (copy_updateQuota mailbox cm cs w) = socket w"
  by (simp_all add: copy_updateQuota_def)

lemma find_updateFirst:
  "(\<And>x. p (f x) = p x) \<Longrightarrow> find p (updateFirst p f xs) = map_option f (find p xs)"
  by (induction xs) auto

lemma incUidNext_Some:
  assumes "find (\<lambda>b. mb_id b = i) (db_mailboxes w) = Some item"
  shows "fst (incUidNext i w) = Some item"
    and "find (\<lambda>b. mb_id b = i) (db_mailboxes (snd (incUidNext i w)))
           = Some (item\<lparr>mb_uidNext := mb_uidNext item + 1\<rparr>)"
    and "db_messages (snd (incUidNext i w)) = db_messages w"
    and "journal (snd (incUidNext i w)) = journal w"
    and "db_users (snd (incUidNext i w)) = db_users w"
  using assms by (simp_all add: incUidNext_def find_updateFirst)

lemma copiedMessage_fields [simp]:
  "m_id (copiedMessage env target m n) = newObjectID env (m_id m)"
  "m_uid (copiedMessage env target m n) = n"
  "m_size (copiedMessage env target m n) = m_size m"
  by (simp_all add: copiedMessage_def)

lemma copy_ok:
  assumes "\<forall>i. uidNextErr env i = None" "\<forall>i. insertErr env i = None"
  shows "find (\<lambda>b. mb_id b = mb_id target) (db_mailboxes w) = Some item \<Longrightarrow>
    fst (copy_processNext env mailbox target session (map NextDoc rows) cm cs su du w)
      = ReplyCopied (mb_uidValidity target) (rev (map m_uid rows) @ su)
          (rev [mb_uidNext item ..< mb_uidNext item + length rows] @ du)
    \<and> db_messages (snd (copy_processNext env mailbox target session (map NextDoc rows) cm cs su du w))
      = db_messages w @ map (\<lambda>(m, n). copiedMessage env target m n)
                          (zip rows [mb_uidNext item ..< mb_uidNext item + length rows])
    \<and> find (\<lambda>b. mb_id b = mb_id target)
         (db_mailboxes (snd (copy_processNext env mailbox target session (map NextDoc rows) cm cs su du w)))
      = Some (item\<lparr>mb_uidNext := mb_uidNext item + length rows\<rparr>)"
proof (induction rows arbitrary: cm cs su du w item)
  case Nil
  then show ?case by (simp add: Let_def)
next
  case (Cons m rows)
  let ?i = "mb_id target"
  let ?item1 = "item\<lparr>mb_uidNext := mb_uidNext item + 1\<rparr>"
  let ?m' = "copiedMessage env target m (mb_uidNext item)"
  obtain w1 where inc: "incUidNext ?i w = (Some item, w1)"
    using incUidNext_Some(1) [OF Cons.prems] by (cases "incUidNext ?i w") simp
  have w1: "find (\<lambda>b. mb_id b = ?i) (db_mailboxes w1) = Some ?item1"
    "db_messages w1 = db_messages w"
    using incUidNext_Some(2,3) [OF Cons.prems] inc by simp_all
  let ?w4 = "addEntries (s_user_id session) (mb_path target) [existsEntry ?m']
               (linkMessage (linkErr env (m_id m)) (m_id m) (m_id ?m') (insertOne ?m' w1))"
  have f1: "find (\<lambda>b. mb_id b = ?i) (db_mailboxes ?w4) = Some ?item1"
    using w1 by simp
  have step: "copy_processNext env mailbox target session (map NextDoc (m # rows)) cm cs su du w
     = copy_processNext env mailbox target session (map NextDoc rows) (Suc cm)
         (cs + m_size m) (m_uid m # su) (mb_uidNext item # du) ?w4"
    using assms inc by (simp add: Let_def)
  have upt: "[mb_uidNext item ..< mb_uidNext item + length (m # rows)]
      = mb_uidNext item # [mb_uidNext ?item1 ..< mb_uidNext ?item1 + length rows]"
    by (simp add: upt_rec)
  have msgs: "db_messages ?w4 = db_messages w @ [?m']"
    using w1 by simp
  show ?case
    unfolding step upt
    using Cons.IH [OF f1, of "Suc cm" "cs + m_size m" "m_uid m # su" "mb_uidNext item # du"] msgs
    by simp
qed

lemma find_by_id:
  "distinct (map mb_id bs) \<Longrightarrow> find p bs = Some t \<Longrightarrow> find (\<lambda>b. mb_id b = mb_id t) bs = Some t"
proof (induction bs)
  case Nil
  then show ?case by simp
next
  case (Cons b bs)
  show ?case
  proof (cases "p b")
    case True
    then show ?thesis using Cons.prems by simp
  next
    case False
    then have t: "find p bs = Some t" using Cons.prems by simp
    then have "t \<in> set bs" by (auto simp: find_Some_iff)
    then have "mb_id b \<noteq> mb_id t" using Cons.prems(1) by auto
    then show ?thesis using Cons t by simp
  qed
qed

section \<open>Lemmas on the fetch loop and the journal\<close>

lemma streamError_fields [simp]:
  "db_users (streamError w) = db_users w"
  "db_mailboxes (streamError w) = db_mailboxes w"
  "db_messages (streamError w) = db_messages w"
  "db_attachments (streamError w) = db_attachments w"
  "journal (streamError w) = journal w"
  "fired (streamError w) = fired w"
  "written (streamError w) = written w"
  "socket (streamError w) = socket w @ [SocketWrite (''INTERNAL ERROR'' @ [CHR 0x0A]), SocketDestroy]"
  by (simp_all add: streamError_def)

lemma fetch_done_socket [simp]:
  "socket (snd (fetch_done env path session args isUpdated ups nts k w)) = socket w"
  by (simp add: fetch_done_def Let_def)

lemma fetch_done_fst [simp]:
  "fst (fetch_done env path session args isUpdated ups nts k w) = args"
  by (simp add: fetch_done_def Let_def)

lemma fetch_stream_error:
  assumes "\<forall>k. bulkResult env k = BulkOk"
  shows "find (\<lambda>m. streamErr env (m_id m) \<noteq> None) rows = Some m \<Longrightarrow>
    socket (snd (fetch_processNext env path options session (map NextDoc rows) isUpdated ups nts k w))
      = socket w @ [SocketWrite (''INTERNAL ERROR'' @ [CHR 0x0A]), SocketDestroy]
    \<and> (\<exists>err. streamErr env (m_id m) = Some err \<and>
         fst (fetch_processNext env path options session (map NextDoc rows) isUpdated ups nts k w)
           = ReplyError err)"
proof (induction rows arbitrary: isUpdated ups nts k w)
  case Nil
  then show ?case by simp
next
  case (Cons r rows)
  show ?case
  proof (cases "streamErr env (m_id r)")
    case (Some err)
    then have "m = r" using Cons.prems by simp
    then show ?thesis using Some by (simp add: Let_def)
  next
    case None
    then have "find (\<lambda>m. streamErr env (m_id m) \<noteq> None) rows = Some m"
      using Cons.prems by simp
    then show ?thesis using None Cons.IH assms by (simp add: Let_def)
  qed
qed

lemma fetch_no_stream_error:
  "\<forall>i. streamErr env i = None \<Longrightarrow>
    socket (snd (fetch_processNext env path options session cursor isUpdated ups nts k w)) = socket w"
proof (induction cursor arbitrary: isUpdated ups nts k w)
  case Nil
  then show ?case by simp
next
  case (Cons c cursor)
  then show ?case by (cases c) (simp_all add: Let_def split: option.splits)
qed

lemma store_journal_inv:
  assumes J: "\<And>e. e_command e = FETCH \<Longrightarrow> e_ignore e = Some (s_id session) \<Longrightarrow>
                (s_user_id session, path, e) \<in> J"
  shows "set (journal w) \<subseteq> J \<Longrightarrow>
     \<forall>e\<in>set nts. e_command e = FETCH \<and> e_ignore e = Some (s_id session) \<Longrightarrow>
     set (journal (snd (store_processNext env mailbox path update session cursor ups nts k w))) \<subseteq> J"
proof (induction cursor arbitrary: ups nts k w)
  case Nil
  then show ?case using J by (auto simp: store_done_journal)
next
  case (Cons c cursor)
  show ?case
  proof (cases c)
    case (NextError err)
    then show ?thesis using Cons.prems J by (auto simp: store_done_journal)
  next
    case (NextDoc m)
    have e: "e_command (storeEntry session m fs) = FETCH"
            "e_ignore (storeEntry session m fs) = Some (s_id session)" for fs
      by (simp_all add: storeEntry_def)
    show ?thesis
    proof (cases "snd (storeFlags update (m_flags m))")
      case None
      then show ?thesis using NextDoc Cons by (simp add: Let_def)
    next
      case (Some fu)
      let ?nts = "nts @ [storeEntry session m (fst (storeFlags update (m_flags m)))]"
      have n: "\<forall>e\<in>set ?nts. e_command e = FETCH \<and> e_ignore e = Some (s_id session)"
        using Cons.prems(2) e by simp
      have sub: "set (journal w) \<union> (\<lambda>e. (s_user_id session, path, e)) ` set ?nts \<subseteq> J"
        using Cons.prems(1) n J by auto
      show ?thesis
        using NextDoc Some Cons.IH [OF _ n] Cons.IH [of _ "[]"] Cons.prems(1) sub
        by (auto simp: Let_def store_done_journal split: option.splits)
    qed
  qed
qed

lemma fetch_done_journal:
  "journal (snd (fetch_done env path session args isUpdated ups nts k w)) =
     (if ups \<noteq> [] then journal w @ map (\<lambda>e. (s_user_id session, path, e)) nts else journal w)"
  by (simp add: fetch_done_def Let_def)

lemma fetch_journal_inv:
  assumes J: "\<And>e. e_command e = FETCH \<Longrightarrow> e_ignore e = Some (s_id session) \<Longrightarrow>
                (s_user_id session, path, e) \<in> J"
  shows "set (journal w) \<subseteq> J \<Longrightarrow>
     \<forall>e\<in>set nts. e_command e = FETCH \<and> e_ignore e = Some (s_id session) \<Longrightarrow>
     set (journal (snd (fetch_processNext env path options session cursor isUpdated ups nts k w))) \<subseteq> J"
proof (induction cursor arbitrary: isUpdated ups nts k w)
  case Nil
  then show ?case using J by (auto simp: fetch_done_journal)
next
  case (Cons c cursor)
  show ?case
  proof (cases c)
    case (NextError err)
    then show ?thesis using Cons.prems J by (auto simp: fetch_done_journal)
  next
    case (NextDoc m)
    have e: "e_command (fetchEntry session x) = FETCH"
            "e_ignore (fetchEntry session x) = Some (s_id session)" for x
      by (simp_all add: fetchEntry_def)
    show ?thesis
    proof (cases "streamErr env (m_id m)")
      case (Some err)
      then show ?thesis using NextDoc Cons.prems J by (auto simp: Let_def fetch_done_journal)
    next
      case None
      show ?thesis
      proof (cases "fo_markAsSeen options \<and> flagSeen \<notin> set (m_flags m)")
        case False
        then show ?thesis using NextDoc None Cons by (simp add: Let_def)
      next
        case True
        let ?nts = "nts @ [fetchEntry session (m\<lparr>m_flags := flagSeen # m_flags m\<rparr>)]"
        have n: "\<forall>e\<in>set ?nts. e_command e = FETCH \<and> e_ignore e = Some (s_id session)"
          using Cons.prems(2) e by simp
        have sub: "set (journal w) \<union> (\<lambda>e. (s_user_id session, path, e)) ` set ?nts \<subseteq> J"
          using Cons.prems(1) n J by auto
        show ?thesis
          using NextDoc None True Cons.IH [OF _ n] Cons.IH [of _ "[]"] Cons.prems(1) sub
          by (auto simp: Let_def fetch_done_journal split: option.splits)
      qed
    qed
  qed
qed

lemma expunge_journal_inv:
  assumes J: "\<And>e. e_command e = EXPUNGE \<Longrightarrow> e_ignore e = Some (s_id session) \<Longrightarrow>
                (s_user_id session, path, e) \<in> J"
  shows "set (journal w) \<subseteq> J \<Longrightarrow>
     set (journal (snd (expunge_processNext env mailbox path update session cursor dm ds w))) \<subseteq> J"
proof (induction cursor arbitrary: dm ds w)
  case Nil
  then show ?case by (simp add: Let_def)
next
  case (Cons c cursor)
  show ?case
  proof (cases c)
    case (NextError err)
    then show ?thesis using Cons.prems by simp
  next
    case (NextDoc m)
    have "(s_user_id session, path, expungeEntry session m) \<in> J"
      by (rule J) (simp_all add: expungeEntry_def)
    then show ?thesis using NextDoc Cons
      by (simp add: Let_def split: option.splits)
  qed
qed

lemma copy_journal_inv:
  assumes J: "\<And>e. e_command e = EXISTS \<Longrightarrow> e_ignore e = None \<Longrightarrow>
                (s_user_id session, mb_path target, e) \<in> J"
  shows "set (journal w) \<subseteq> J \<Longrightarrow>
     set (journal (snd (copy_processNext env mailbox target session cursor cm cs su du w))) \<subseteq> J"
proof (induction cursor arbitrary: cm cs su du w)
  case Nil
  then show ?case by (simp add: Let_def)
next
  case (Cons c cursor)
  show ?case
  proof (cases c)
    case (NextError err)
    then show ?thesis using Cons.prems by simp
  next
    case (NextDoc m)
    have e: "(s_user_id session, mb_path target, existsEntry x) \<in> J" for x
      by (rule J) (simp_all add: existsEntry_def)
    obtain item w1 where inc: "incUidNext (mb_id target) w = (item, w1)"
      by (cases "incUidNext (mb_id target) w")
    then have w1: "journal w1 = journal w"
      by (auto simp: incUidNext_def)
    show ?thesis
    proof (cases "uidNextErr env (m_id m)")
      case (Some err)
      then show ?thesis using NextDoc Cons.prems by (simp add: Let_def)
    next
      case None
      note noErr = this
      show ?thesis
      proof (cases item)
        case None
        then show ?thesis using NextDoc noErr inc w1 Cons.prems by (simp add: Let_def)
      next
        case (Some it)
        show ?thesis
        proof (cases "insertErr env (m_id m)")
          case (Some err)
          then show ?thesis using NextDoc noErr inc w1 \<open>item = Some it\<close> Cons.prems
            by (simp add: Let_def)
        next
          case None
          then show ?thesis using NextDoc noErr inc w1 \<open>item = Some it\<close> Cons.prems e
            by (simp add: Let_def Cons.IH)
        qed
      qed
    qed
  qed
qed

section \<open>Lemmas on the search walk\<close>

lemma walk_calls:
  "\<exists>n. calls (snd (walkQuery ne node st)) = calls st @ replicate n (ReplyFound [] 0)"
  "\<exists>n. calls (snd (walkTerms ne ts st)) = calls st @ replicate n (ReplyFound [] 0)"
  "\<exists>n. calls (snd (walkTerm ne t st)) = calls st @ replicate n (ReplyFound [] 0)"
  "\<exists>n. calls (snd (walkOr es st)) = calls st @ replicate n (ReplyFound [] 0)"
proof (induction ne node st and ne ts st and ne t st and es st
       rule: walkQuery_walkTerms_walkTerm_walkOr.induct)
  case (1 ne node st)
  then show ?case by (cases "hasAll st \<or> nothing st") (auto intro: exI [of _ 0])
next
  case (2 ne st)
  then show ?case by (auto intro: exI [of _ 0])
next
  case (3 ne t ts st)
  obtain cs1 st1 where w1: "walkTerm ne t st = (cs1, st1)" by (cases "walkTerm ne t st")
  obtain cs2 st2 where w2: "walkTerms ne ts st1 = (cs2, st2)" by (cases "walkTerms ne ts st1")
  from 3(1) w1 obtain n1 where n1: "calls st1 = calls st @ replicate n1 (ReplyFound [] 0)" by auto
  from 3(2) [OF w1 [symmetric]] w2 obtain n2 where
    n2: "calls st2 = calls st1 @ replicate n2 (ReplyFound [] 0)" by auto
  have "calls st2 = calls st @ replicate (n1 + n2) (ReplyFound [] 0)"
    using n1 n2 by (simp add: replicate_add)
  then show ?case using w1 w2 by auto
next
  case (10 ne val st)
  then show ?case by (auto intro: exI [of _ 0] exI [of _ 1])
next
  case (19 entry es st)
  obtain cs1 st1 where w1: "walkQuery False entry st = (cs1, st1)" by (cases "walkQuery False entry st")
  obtain cs2 st2 where w2: "walkOr es st1 = (cs2, st2)" by (cases "walkOr es st1")
  from 19(1) w1 obtain n1 where n1: "calls st1 = calls st @ replicate n1 (ReplyFound [] 0)" by auto
  from 19(2) [OF w1 [symmetric]] w2 obtain n2 where
    n2: "calls st2 = calls st1 @ replicate n2 (ReplyFound [] 0)" by auto
  have "calls st2 = calls st @ replicate (n1 + n2) (ReplyFound [] 0)"
    using n1 n2 by (simp add: replicate_add)
  then show ?case using w1 w2 by auto
qed (auto intro: exI [of _ 0] split: prod.splits)


lemma walkTerms_uid_empty:
  "TermUid (UidList []) \<in> set ts \<Longrightarrow>
   length (calls st) < length (calls (snd (walkTerms ne ts st)))"
proof (induction ts arbitrary: st)
  case Nil
  then show ?case by simp
next
  case (Cons t ts)
  obtain cs1 st1 where w1: "walkTerm ne t st = (cs1, st1)" by (cases "walkTerm ne t st")
  obtain cs2 st2 where w2: "walkTerms ne ts st1 = (cs2, st2)" by (cases "walkTerms ne ts st1")
  have m1: "length (calls st) \<le> length (calls st1)"
    using walk_calls(3) [of ne t st] w1 by auto
  have m2: "length (calls st1) \<le> length (calls st2)"
    using walk_calls(2) [of ne ts st1] w2 by auto
  show ?case
  proof (cases "t = TermUid (UidList [])")
    case True
    then have "length (calls st1) = Suc (length (calls st))" using w1 by auto
    then show ?thesis using w1 w2 m2 by simp
  next
    case False
    then have "TermUid (UidList []) \<in> set ts" using Cons.prems by simp
    then have "length (calls st1) < length (calls st2)"
      using Cons.IH [of st1] w2 by simp
    then show ?thesis using w1 w2 m1 by simp
  qed
qed

section \<open>Evaluation of the handlers on concrete input\<close>

lemma toLowerCase_system [simp]:
  "toLowerCase (CHR 0x5C # ''Seen'') = CHR 0x5C # ''seen''"
  "toLowerCase (CHR 0x5C # ''Flagged'') = CHR 0x5C # ''flagged''"
  "toLowerCase (CHR 0x5C # ''Deleted'') = CHR 0x5C # ''deleted''"
  "toLowerCase (CHR 0x5C # ''Answered'') = CHR 0x5C # ''answered''"
  "toLowerCase (CHR 0x5C # ''Draft'') = CHR 0x5C # ''draft''"
  by (simp_all add: toLowerCase_def lower_char_def)

lemma trim_system [simp]:
  "trim (CHR 0x5C # ''Seen'') = CHR 0x5C # ''Seen''"
  "trim (CHR 0x5C # ''Flagged'') = CHR 0x5C # ''Flagged''"
  "trim (CHR 0x5C # ''Deleted'') = CHR 0x5C # ''Deleted''"
  "trim (CHR 0x5C # ''Answered'') = CHR 0x5C # ''Answered''"
  "trim (CHR 0x5C # ''Draft'') = CHR 0x5C # ''Draft''"
  "trim (CHR 0x5C # ''seen'') = CHR 0x5C # ''seen''"
  "trim (CHR 0x5C # ''flagged'') = CHR 0x5C # ''flagged''"
  "trim (CHR 0x5C # ''deleted'') = CHR 0x5C # ''deleted''"
  by (simp_all add: trim_def is_space_def)

lemmas string_defs = normFlag_def flagSeen_def flagDeleted_def flagFlagged_def backslash_def

lemmas setting_defs = ex_env_def ex_store_def ex_session_def ex_world_def ex_message_def
  ex_mailbox_def ex_inbox_def ex_world1_def ex_world2_def ex_world3_def ex_users_def
  ex_alice_def

lemmas storage_defs = findMailbox_def cursor_of_def findSorted_def bulkWrite_def
  appliedOps_def updateOne_def applyUpdate_def applySet_def addToSetEach_def pullIn_def
  addEntries_def fire_def writeResponse_def incStorageUsed_def emptySet_def
  BULK_BATCH_SIZE_def Let_def

lemmas store_defs = onStore_def storeQuery_def storeFlags_def systemFlagsSet_def
  store_done_def updateMailboxFlags_def learnFlags_def storeEntry_def

lemmas copy_defs = onCopy_def copyQuery_def copy_updateQuota_def incUidNext_def insertOne_def
  linkMessage_def existsEntry_def copiedMessage_def
  ex_drafts_def ex_archive_def ex_copy_world_def ex_copy_def

lemmas expunge_defs = onExpunge_def expungeQuery_def expungeEntry_def deleteOne_def
  unlinkMessage_def sweepAttachments_def expunge_updateQuota_def
  ex_expunge_world_def ex_sweep_fails_def

lemmas fetch_defs = onFetch_def fetchQuery_def fetch_done_def streamError_def seenUpdate_def
  fetchEntry_def ex_stream_fails_def ex_fetch_def

lemmas search_defs = onSearch_def matchQuery_def compareOp_def

section \<open>Properties of onStore\<close>


text \<open>
  The same on every input. Take a STORE whose mailbox lookup, cursor and bulk writes
  report no error. For every matched message for which the handler's \<^verbatim>\<open>updated\<close> test
  holds, in UID order, the handler hands the notifier one FETCH entry with
  \<^verbatim>\<open>ignore = session.id\<close>, the message's uid, its new flags and its \<^verbatim>\<open>_id\<close>, and no
  \<^verbatim>\<open>modseq\<close>, and it applies the message's update document to the stored message.
  With the notifier as above, no mailbox's \<^verbatim>\<open>modifyIndex\<close> and no message's
  \<^verbatim>\<open>modseq\<close> changes.
\<close>

lemma onStore_changed_messages:
  assumes "mailboxFindErr env = None"
    and "findMailbox (s_user_id session) path w = Some mailbox"
    and "cursorErr env = None"
    and "\<forall>k. bulkResult env k = BulkOk"
  shows "fst (onStore env path update session w) = ReplyOk
    \<and> journal (snd (onStore env path update session w))
        = journal w @
          map (\<lambda>m. (s_user_id session, path,
                     \<lparr>e_command = FETCH, e_ignore = Some (s_id session), e_uid = m_uid m,
                      e_flags = Some (fst (storeFlags update (m_flags m))),
                      e_message = m_id m, e_modseq = None\<rparr>))
            (filter (\<lambda>m. snd (storeFlags update (m_flags m)) \<noteq> None)
               (findSorted (storeQuery mailbox update) w))
    \<and> db_messages (snd (onStore env path update session w))
        = foldl (\<lambda>ms op. updateOne op ms) (db_messages w)
            (List.map_filter
               (\<lambda>m. map_option (Pair (m_id m)) (snd (storeFlags update (m_flags m))))
               (findSorted (storeQuery mailbox update) w))
    \<and> map mb_modifyIndex (db_mailboxes (snd (onStore env path update session w)))
        = map mb_modifyIndex (db_mailboxes w)
    \<and> map m_modseq (db_messages (snd (onStore env path update session w)))
        = map m_modseq (db_messages w)"
proof -
  let ?rows = "findSorted (storeQuery mailbox update) w"
  have run: "onStore env path update session w
      = store_processNext env mailbox path update session (map NextDoc ?rows) [] [] 0 w"
    using assms(1-3) by (simp add: onStore_def cursor_of_def)
  have "journal (snd (store_processNext env mailbox path update session (map NextDoc ?rows) [] [] 0 w))
      = journal w @ map (\<lambda>e. (s_user_id session, path, e))
          ([] @ map (\<lambda>m. storeEntry session m (fst (storeFlags update (m_flags m))))
                 (filter (\<lambda>m. snd (storeFlags update (m_flags m)) \<noteq> None) ?rows))"
    by (rule store_journal_ok [OF assms(4)]) simp
  then show ?thesis
    unfolding run
    using store_reply_ok [OF assms(4)] store_messages_ok [OF assms(4), where ups = "[]"]
    by (simp add: store_modifyIndex foldl_updateOne_modseq storeEntry_def comp_def)
qed

lemma onStore_changed_messages_witness:
  "journal (snd (onStore ex_env ''INBOX'' (ex_store ActionAdd [flagSeen] [1, 2] 0 True)
                   ex_session ex_world2))
   = [(1, ''INBOX'', \<lparr>e_command = FETCH, e_ignore = Some ''sess-A'', e_uid = 1,
                      e_flags = Some [flagSeen], e_message = 100, e_modseq = None\<rparr>)]"
  using onStore_changed_messages [of ex_env ex_session "''INBOX''" ex_world2 ex_inbox
      "ex_store ActionAdd [flagSeen] [1, 2] 0 True"]
  by (simp add: setting_defs storage_defs store_defs string_defs)

text \<open>
  C2 fails on the code. Message 100 has no flags and consistent booleans;
  \<^verbatim>\<open>STORE 1 +FLAGS.SILENT (\Seen \Deleted)\<close> stores both flags but sets only
  \<^verbatim>\<open>deleted\<close>, because the \<^verbatim>\<open>$set\<close> object for \<^verbatim>\<open>seen\<close> is replaced by the one for
  \<^verbatim>\<open>deleted\<close>: \<^verbatim>\<open>seen\<close> stays false with \<^verbatim>\<open>\Seen\<close> among the flags. In the same way
  \<^verbatim>\<open>STORE 1 -FLAGS.SILENT (\Seen \Deleted)\<close> on a message carrying both removes both
  flags and leaves \<^verbatim>\<open>seen\<close> true.
\<close>

theorem onStore_two_system_flags:
  "list_all denormConsistent (db_messages ex_world1)
   \<and> db_messages (snd (onStore ex_env ''INBOX'' (ex_store ActionAdd [flagSeen, flagDeleted] [1] 0 True)
                          ex_session ex_world1))
     = [(ex_message 100 10 1 3 [flagSeen, flagDeleted] 512)\<lparr>m_seen := False\<rparr>]
   \<and> \<not> list_all denormConsistent
         (db_messages (snd (onStore ex_env ''INBOX''
                              (ex_store ActionAdd [flagSeen, flagDeleted] [1] 0 True)
                              ex_session ex_world1)))
   \<and> list_all denormConsistent (db_messages ex_world3)
   \<and> db_messages (snd (onStore ex_env ''INBOX'' (ex_store ActionRemove [flagSeen, flagDeleted] [1] 0 True)
                          ex_session ex_world3))
     = [(ex_message 100 10 1 3 [] 512)\<lparr>m_seen := True\<rparr>]
   \<and> \<not> list_all denormConsistent
         (db_messages (snd (onStore ex_env ''INBOX''
                              (ex_store ActionRemove [flagSeen, flagDeleted] [1] 0 True)
                              ex_session ex_world3)))"
  by (simp add: denormConsistent_def setting_defs storage_defs store_defs string_defs)

text \<open>
  C4, as the handler has it. Take a STORE with a non-zero \<^verbatim>\<open>unchangedSince\<close> value
  \<open>m\<close>, on a collection whose \<^verbatim>\<open>_id\<close>s are distinct. Whatever errors the storage
  reports, the collection keeps its length and every message that is not at once in the
  mailbox, in the requested UID set and of modseq at most \<open>m\<close> is left as it was; when
  the cursor and the bulk writes report no error, the messages that are all three are
  exactly those run through the flag update, in UID order. The handler completes with
  \<^verbatim>\<open>callback(null, true)\<close> or with an error: its completion has no place for a list
  of the messages it skipped.
\<close>

theorem onStore_unchangedSince:
  assumes "mailboxFindErr env = None"
    and "findMailbox (s_user_id session) path w = Some mailbox"
    and "up_unchangedSince update \<noteq> 0"
    and "distinct (map m_id (db_messages w))"
  shows "length (db_messages (snd (onStore env path update session w))) = length (db_messages w)
    \<and> (\<forall>i < length (db_messages w).
          \<not> (m_mailbox (db_messages w ! i) = mb_id mailbox \<and>
             m_uid (db_messages w ! i) \<in> set (up_messages update) \<and>
             m_modseq (db_messages w ! i) \<le> up_unchangedSince update) \<longrightarrow>
          db_messages (snd (onStore env path update session w)) ! i = db_messages w ! i)
    \<and> (cursorErr env = None \<and> (\<forall>k. bulkResult env k = BulkOk) \<longrightarrow>
          db_messages (snd (onStore env path update session w))
          = foldl (\<lambda>ms op. updateOne op ms) (db_messages w)
              (List.map_filter
                 (\<lambda>m. map_option (Pair (m_id m)) (snd (storeFlags update (m_flags m))))
                 (sort_key m_uid
                    (filter (\<lambda>m. m_mailbox m = mb_id mailbox \<and>
                                  m_uid m \<in> set (up_messages update) \<and>
                                  m_modseq m \<le> up_unchangedSince update)
                       (db_messages w)))))
    \<and> (fst (onStore env path update session w) = ReplyOk \<or>
        (\<exists>err. fst (onStore env path update session w) = ReplyError err))"
proof -
  let ?q = "storeQuery mailbox update"
  let ?rows = "findSorted ?q w"
  let ?I = "m_id ` set ?rows"
  let ?cursor = "cursor_of (cursorErr env) ?rows"
  have run: "onStore env path update session w
      = store_processNext env mailbox path update session ?cursor [] [] 0 w"
    using assms(1,2) by (simp add: onStore_def)
  have q: "?q = (\<lambda>m. m_mailbox m = mb_id mailbox \<and> m_uid m \<in> set (up_messages update) \<and>
                      m_modseq m \<le> up_unchangedSince update)"
    using assms(3) by (auto simp: storeQuery_def fun_eq_iff)
  have "list_all2 (outside ?I) (db_messages w)
          (db_messages (snd (store_processNext env mailbox path update session ?cursor [] [] 0 w)))"
    by (rule store_outside) (auto simp: outside_refl dest: cursor_of_docs)
  then have all2: "list_all2 (outside ?I) (db_messages w)
                     (db_messages (snd (onStore env path update session w)))"
    by (simp add: run)
  have len: "length (db_messages (snd (onStore env path update session w))) = length (db_messages w)"
    using all2 by (simp add: list_all2_lengthD)
  have untouched: "db_messages (snd (onStore env path update session w)) ! i = db_messages w ! i"
    if "i < length (db_messages w)" "\<not> ?q (db_messages w ! i)" for i
  proof -
    have "m_id (db_messages w ! i) \<notin> ?I"
      using that assms(4) by (intro outside_query) simp_all
    moreover have "outside ?I (db_messages w ! i) (db_messages (snd (onStore env path update session w)) ! i)"
      using all2 that(1) by (simp add: list_all2_conv_all_nth)
    ultimately show ?thesis by (simp add: outside_def)
  qed
  have ok: "db_messages (snd (onStore env path update session w))
          = foldl (\<lambda>ms op. updateOne op ms) (db_messages w)
              (List.map_filter
                 (\<lambda>m. map_option (Pair (m_id m)) (snd (storeFlags update (m_flags m)))) ?rows)"
    if "cursorErr env = None" "\<forall>k. bulkResult env k = BulkOk"
    using that store_messages_ok [OF that(2), where ups = "[]"] by (simp add: run cursor_of_def)
  have shape: "fst (onStore env path update session w) = ReplyOk \<or>
        (\<exists>err. fst (onStore env path update session w) = ReplyError err)"
    unfolding run by (rule store_reply_shape)
  show ?thesis
    using len untouched ok shape unfolding q findSorted_def by blast
qed

theorem onStore_unchangedSince_witness:
  "db_messages (snd (onStore ex_env ''INBOX'' (ex_store ActionAdd [flagFlagged] [1, 2] 4 True)
                       ex_session ex_world2)) ! 1
     = ex_message 101 10 2 5 [flagSeen] 256
   \<and> db_messages (snd (onStore ex_env ''INBOX'' (ex_store ActionAdd [flagFlagged] [1, 2] 4 True)
                       ex_session ex_world2)) ! 0
     = ex_message 100 10 1 3 [flagFlagged] 512"
  using onStore_unchangedSince [of ex_env ex_session "''INBOX''" ex_world2 ex_inbox
      "ex_store ActionAdd [flagFlagged] [1, 2] 4 True"]
  by (simp add: setting_defs storage_defs store_defs string_defs)

text \<open>
  C4 as stated fails. With \<^verbatim>\<open>UNCHANGEDSINCE 4\<close> message 101 (modseq 5) is skipped, and
  nothing the handler emits mentions it: the completion is \<^verbatim>\<open>callback(null, true)\<close> and
  the only line written is the FETCH of UID 1. With \<^verbatim>\<open>unchangedSince = 0\<close> the handler
  applies no modseq condition and message 101 is modified.
\<close>

theorem onStore_reports_no_modified:
  "onStore ex_env ''INBOX'' (ex_store ActionAdd [flagFlagged] [1, 2] 4 False) ex_session ex_world2
     = (ReplyOk,
        ex_world2\<lparr>db_messages := [ex_message 100 10 1 3 [flagFlagged] 512,
                                   ex_message 101 10 2 5 [flagSeen] 256],
                  journal := [(1, ''INBOX'', storeEntry ex_session (ex_message 100 10 1 3 [] 512)
                                               [flagFlagged])],
                  fired := [(1, ''INBOX'')],
                  written := [FetchFlags 1 (Some 1) [flagFlagged]]\<rparr>)
   \<and> db_messages (snd (onStore ex_env ''INBOX'' (ex_store ActionAdd [flagFlagged] [1, 2] 0 False)
                          ex_session ex_world2))
     = [ex_message 100 10 1 3 [flagFlagged] 512, ex_message 101 10 2 5 [flagSeen, flagFlagged] 256]"
  by (simp add: setting_defs storage_defs store_defs string_defs)

text \<open>
  C5, as the handler has it. In a STORE whose mailbox lookup, cursor and bulk writes
  report no error, a non-silent command writes one FETCH response for every matched
  message, in UID order, showing the flags the action computes for it, whether or not
  they differ from the stored ones; a silent command writes none.
\<close>

theorem onStore_fetch_responses:
  assumes "mailboxFindErr env = None"
    and "findMailbox (s_user_id session) path w = Some mailbox"
    and "cursorErr env = None"
    and "\<forall>k. bulkResult env k = BulkOk"
  shows "written (snd (onStore env path update session w))
     = written w @
       (if up_silent update then []
        else map (\<lambda>m. FetchFlags (m_uid m) (if up_isUid update then Some (m_uid m) else None)
                        (fst (storeFlags update (m_flags m))))
               (findSorted (storeQuery mailbox update) w))"
  using assms(1-3) store_written_ok [OF assms(4)]
  by (simp add: onStore_def cursor_of_def)

theorem onStore_fetch_responses_witness:
  "written (snd (onStore ex_env ''INBOX'' (ex_store ActionAdd [flagSeen] [1, 2] 0 False)
                   ex_session ex_world2))
   = [FetchFlags 1 (Some 1) [flagSeen], FetchFlags 2 (Some 2) [flagSeen]]"
  using onStore_fetch_responses [of ex_env ex_session "''INBOX''" ex_world2 ex_inbox
      "ex_store ActionAdd [flagSeen] [1, 2] 0 False"]
  by (simp add: setting_defs storage_defs store_defs string_defs)

text \<open>
  C5 as stated fails: message 101 already has \<^verbatim>\<open>\Seen\<close>, and
  \<^verbatim>\<open>UID STORE 2 +FLAGS (\Seen)\<close> changes no stored message and appends no journal entry,
  yet writes the FETCH line of UID 2.
\<close>

theorem onStore_unchanged_message_fetch_line:
  "written (snd (onStore ex_env ''INBOX'' (ex_store ActionAdd [flagSeen] [2] 0 False)
                   ex_session ex_world2))
     = [FetchFlags 2 (Some 2) [flagSeen]]
   \<and> db_messages (snd (onStore ex_env ''INBOX'' (ex_store ActionAdd [flagSeen] [2] 0 False)
                   ex_session ex_world2)) = db_messages ex_world2
   \<and> journal (snd (onStore ex_env ''INBOX'' (ex_store ActionAdd [flagSeen] [2] 0 False)
                   ex_session ex_world2)) = []"
  by (simp add: setting_defs storage_defs store_defs string_defs)

section \<open>Properties of onCopy\<close>

text \<open>
  C3, as the handler has it. Take a COPY whose storage calls report no error, with both
  mailboxes found and distinct mailbox \<^verbatim>\<open>_id\<close>s. The source messages are visited in
  ascending UID order; the \<open>k\<close>-th of them is inserted in the target with the UID
  \<open>uidNext + k\<close>, the target's \<^verbatim>\<open>uidNext\<close> being incremented once per message. The
  completion carries the target's \<^verbatim>\<open>uidValidity\<close> and both UID lists in the reverse of
  that order (\<^verbatim>\<open>unshift\<close>): source UIDs descending, destination UIDs latest first, so
  that they still correspond position by position.
\<close>

theorem onCopy_uid_lists:
  assumes "mailboxFindErr env = None" and "targetFindErr env = None"
    and "cursorErr env = None"
    and "\<forall>i. uidNextErr env i = None" and "\<forall>i. insertErr env i = None"
    and "findMailbox (s_user_id session) path w = Some mailbox"
    and "findMailbox (s_user_id session) (cp_destination update) w = Some target"
    and "distinct (map mb_id (db_mailboxes w))"
  shows "fst (onCopy env path update session w)
       = ReplyCopied (mb_uidValidity target)
           (rev (map m_uid (findSorted (copyQuery mailbox update) w)))
           (rev [mb_uidNext target ..<
                 mb_uidNext target + length (findSorted (copyQuery mailbox update) w)])
    \<and> sorted (map m_uid (findSorted (copyQuery mailbox update) w))
    \<and> db_messages (snd (onCopy env path update session w))
       = db_messages w @
         map (\<lambda>(m, n). copiedMessage env target m n)
           (zip (findSorted (copyQuery mailbox update) w)
              [mb_uidNext target ..<
               mb_uidNext target + length (findSorted (copyQuery mailbox update) w)])
    \<and> find (\<lambda>b. mb_id b = mb_id target) (db_mailboxes (snd (onCopy env path update session w)))
       = Some (target\<lparr>mb_uidNext :=
                 mb_uidNext target + length (findSorted (copyQuery mailbox update) w)\<rparr>)"
proof -
  let ?rows = "findSorted (copyQuery mailbox update) w"
  have run: "onCopy env path update session w
      = copy_processNext env mailbox target session (map NextDoc ?rows) 0 0 [] [] w"
    using assms(1-3,6,7) by (simp add: onCopy_def cursor_of_def)
  have item: "find (\<lambda>b. mb_id b = mb_id target) (db_mailboxes w) = Some target"
    using assms(7,8) unfolding findMailbox_def by (rule find_by_id [rotated])
  have "sorted (map m_uid ?rows)"
    by (simp add: findSorted_def)
  then show ?thesis
    unfolding run
    using copy_ok [OF assms(4,5) item, of mailbox session ?rows 0 0 "[]" "[]"]
    by simp
qed

theorem onCopy_uid_lists_witness:
  "fst (onCopy ex_env ''Drafts'' ex_copy ex_session ex_copy_world)
     = ReplyCopied 1700000030 (rev [7, 9]) (rev [40, 41])
   \<and> map m_uid (db_messages (snd (onCopy ex_env ''Drafts'' ex_copy ex_session ex_copy_world)))
     = [9, 7, 40, 41]
   \<and> map mb_uidNext (db_mailboxes (snd (onCopy ex_env ''Drafts'' ex_copy ex_session ex_copy_world)))
     = [10, 42]"
  using onCopy_uid_lists [of ex_env ex_session "''Drafts''" ex_copy_world ex_drafts ex_copy ex_archive]
  by (simp add: copy_defs setting_defs storage_defs string_defs)

text \<open>
  C3 as stated fails: copying UIDs 7 and 9 into Archive with \<^verbatim>\<open>uidNext = 40\<close> completes
  with the source list 9, 7 and the destination list 41, 40.
\<close>

theorem onCopy_lists_reversed:
  "fst (onCopy ex_env ''Drafts'' ex_copy ex_session ex_copy_world)
     = ReplyCopied 1700000030 [9, 7] [41, 40]"
  by (simp add: copy_defs setting_defs storage_defs string_defs)

section \<open>Properties of onExpunge\<close>

text \<open>
  C6. Take an EXPUNGE whose mailbox lookup succeeds, under any errors of the cursor, of
  the deletions and of the writes on attachments. The messages removed from the
  collection are those of \<open>expunged\<close>; \<^verbatim>\<open>storageUsed\<close> of the mailbox's user is
  decremented once, by the sum of their sizes, and the users are left as they were when
  no message was deleted; no mailbox document changes, so \<^verbatim>\<open>uidNext\<close> is unchanged;
  the completion does not depend on the outcome \<open>se\<close> of the attachment sweep; and when
  neither the cursor nor a deletion fails, every message of the mailbox marked
  \<^verbatim>\<open>deleted\<close> is removed and the command completes successfully.
\<close>

theorem onExpunge_quota:
  assumes "mailboxFindErr env = None"
    and "findMailbox (s_user_id session) path w = Some mailbox"
  shows "db_messages (snd (onExpunge env path update session w))
       = foldl (\<lambda>ms m. deleteFirst (\<lambda>x. m_id x = m_id m) ms) (db_messages w)
           (expunged env (cursor_of (cursorErr env) (findSorted (expungeQuery mailbox) w)))
    \<and> db_users (snd (onExpunge env path update session w))
       = (if expunged env (cursor_of (cursorErr env) (findSorted (expungeQuery mailbox) w)) = []
          then db_users w
          else updateFirst (\<lambda>u. u_id u = mb_user mailbox)
                 (\<lambda>u. u\<lparr>u_storageUsed := u_storageUsed u -
                            sum_list (map m_size
                              (expunged env (cursor_of (cursorErr env)
                                               (findSorted (expungeQuery mailbox) w))))\<rparr>)
                 (db_users w))
    \<and> db_mailboxes (snd (onExpunge env path update session w)) = db_mailboxes w
    \<and> fst (onExpunge (env\<lparr>sweepErr := se\<rparr>) path update session w)
       = fst (onExpunge env path update session w)
    \<and> (cursorErr env = None \<and> (\<forall>i. deleteErr env i = None) \<longrightarrow>
          expunged env (cursor_of (cursorErr env) (findSorted (expungeQuery mailbox) w))
            = sort_key m_uid (filter (\<lambda>m. m_mailbox m = mb_id mailbox \<and> m_deleted m)
                                (db_messages w))
          \<and> fst (onExpunge env path update session w) = ReplyOk)"
proof -
  let ?cursor = "cursor_of (cursorErr env) (findSorted (expungeQuery mailbox) w)"
  have run: "onExpunge env path update session w
      = expunge_processNext env mailbox path update session ?cursor 0 0 w"
    using assms by (simp add: onExpunge_def)
  have run': "onExpunge (env\<lparr>sweepErr := se\<rparr>) path update session w
      = expunge_processNext (env\<lparr>sweepErr := se\<rparr>) mailbox path update session ?cursor 0 0 w"
    using assms by (simp add: onExpunge_def)
  have users: "db_users (snd (onExpunge env path update session w))
       = (if expunged env ?cursor = [] then db_users w
          else updateFirst (\<lambda>u. u_id u = mb_user mailbox)
                 (\<lambda>u. u\<lparr>u_storageUsed := u_storageUsed u - sum_list (map m_size (expunged env ?cursor))\<rparr>)
                 (db_users w))"
    unfolding run expunge_users
    by (simp add: expunge_updateQuota_def incStorageUsed_def)
  have q: "expungeQuery mailbox = (\<lambda>m. m_mailbox m = mb_id mailbox \<and> m_deleted m)"
    by (auto simp: expungeQuery_def fun_eq_iff)
  have ok: "expunged env ?cursor
            = sort_key m_uid (filter (\<lambda>m. m_mailbox m = mb_id mailbox \<and> m_deleted m) (db_messages w))
          \<and> fst (onExpunge env path update session w) = ReplyOk"
    if "cursorErr env = None" "\<forall>i. deleteErr env i = None"
    using that unfolding run
    by (simp add: cursor_of_def expunged_all expunge_reply_ok findSorted_def q)
  show ?thesis
    using users ok
    by (simp add: run run' expunge_messages expunge_mailboxes expunge_reply_sweep)
qed

theorem onExpunge_quota_witness:
  "onExpunge ex_sweep_fails ''INBOX'' \<lparr>xp_silent = False\<rparr> ex_session ex_expunge_world
   = (ReplyOk,
      ex_expunge_world
        \<lparr>db_users := [ex_alice\<lparr>u_storageUsed := 600\<rparr>],
         db_messages := [ex_message 110 10 10 1 [] 100, ex_message 112 10 12 3 [] 500],
         db_attachments := [\<lparr>a_id = 7, a_messages = []\<rparr>],
         journal := [(1, ''INBOX'', expungeEntry ex_session (ex_message 111 10 11 2 [flagDeleted] 300))],
         fired := [(1, ''INBOX'')],
         written := [ExpungeLine 11]\<rparr>)"
  using onExpunge_quota [of ex_sweep_fails ex_session "''INBOX''" ex_expunge_world
      "ex_mailbox 10 ''INBOX'' 13" "\<lparr>xp_silent = False\<rparr>" None]
  by (simp add: expunge_defs setting_defs storage_defs string_defs)

section \<open>Properties of onFetch\<close>

text \<open>
  C7, as the handler has it. Take a FETCH whose mailbox lookup, cursor and bulk writes
  report no error, and let \<open>m\<close> be the first matched message whose stream emits an
  error. The handler writes the line \<^verbatim>\<open>INTERNAL ERROR\<close> to the socket, then destroys
  the socket, and completes with the stream's error.
\<close>

theorem onFetch_stream_error:
  assumes "mailboxFindErr env = None"
    and "findMailbox (s_user_id session) path w = Some mailbox"
    and "cursorErr env = None"
    and "\<forall>k. bulkResult env k = BulkOk"
    and "find (\<lambda>m. streamErr env (m_id m) \<noteq> None) (findSorted (fetchQuery mailbox options) w)
           = Some m"
  shows "socket (snd (onFetch env path options session w))
       = socket w @ [SocketWrite (''INTERNAL ERROR'' @ [CHR 0x0A]), SocketDestroy]
    \<and> map_option ReplyError (streamErr env (m_id m))
       = Some (fst (onFetch env path options session w))"
proof -
  let ?rows = "findSorted (fetchQuery mailbox options) w"
  have run: "onFetch env path options session w
      = fetch_processNext env path options session (map NextDoc ?rows) False [] [] 0 w"
    using assms(1-3) by (simp add: onFetch_def cursor_of_def)
  show ?thesis
    unfolding run
    using fetch_stream_error [OF assms(4,5), of path options session False "[]" "[]" 0 w]
    by auto
qed

theorem onFetch_stream_error_witness:
  "socket (snd (onFetch ex_stream_fails ''INBOX'' ex_fetch ex_session ex_world2))
     = [SocketWrite (''INTERNAL ERROR'' @ [CHR 0x0A]), SocketDestroy]
   \<and> fst (onFetch ex_stream_fails ''INBOX'' ex_fetch ex_session ex_world2)
     = ReplyError (Error ''stream torn'' None)"
  using onFetch_stream_error [of ex_stream_fails ex_session "''INBOX''" ex_world2 ex_inbox
      ex_fetch "ex_message 101 10 2 5 [flagSeen] 256"]
  by (simp add: fetch_defs setting_defs storage_defs string_defs)

text \<open>
  C7 as stated fails: the stream of message 101 breaks, and what the handler writes to
  the socket before destroying it is \<^verbatim>\<open>INTERNAL ERROR\<close>, not an untagged \<^verbatim>\<open>BYE\<close>;
  the session's output stream holds the FETCH of UID 1 only.
\<close>

theorem onFetch_writes_no_bye:
  "onFetch ex_stream_fails ''INBOX'' ex_fetch ex_session ex_world2
   = (ReplyError (Error ''stream torn'' None),
      ex_world2
        \<lparr>db_messages := [ex_message 100 10 1 3 [flagSeen] 512, ex_message 101 10 2 5 [flagSeen] 256],
         journal := [(1, ''INBOX'', fetchEntry ex_session (ex_message 100 10 1 3 [flagSeen] 512))],
         fired := [(1, ''INBOX'')],
         written := [FetchValues 1 [''BODY[]''] [''BODY[]'']],
         socket := [SocketWrite (''INTERNAL ERROR'' @ [CHR 0x0A]), SocketDestroy]\<rparr>)"
  by (simp add: fetch_defs setting_defs storage_defs string_defs)

section \<open>Properties of onSearch\<close>

text \<open>
  C8 fails on the code. A search with a UID term whose set is empty calls back with the
  empty result and then goes on: with \<^verbatim>\<open>UID <empty> SEEN\<close> the handler calls back a
  second time with the seen message of the mailbox, with \<^verbatim>\<open>ALL UID <empty>\<close> a second
  time with every message.
\<close>

theorem onSearch_empty_uid_set:
  "onSearch ex_env ''INBOX'' \<lparr>so_query = [TermUid (UidList []), TermFlag flagSeen True]\<rparr>
     ex_session ex_world2
   = [ReplyFound [] 0, ReplyFound [2] 5]
   \<and> onSearch ex_env ''INBOX'' \<lparr>so_query = [TermAll, TermUid (UidList [])]\<rparr>
     ex_session ex_world2
   = [ReplyFound [] 0, ReplyFound [1, 2] 5]"
  by (simp add: search_defs setting_defs storage_defs string_defs)

text \<open>
  The same holds for every search that is let through to the walk and has such a term
  among its top-level criteria: the handler calls back at least twice, the first time
  with the empty result.
\<close>

lemma onSearch_empty_uid_calls_back_again:
  assumes "mailboxFindErr env = None"
    and "findMailbox (s_user_id session) path w = Some mailbox"
    and "TermUid (UidList []) \<in> set (so_query options)"
  shows "2 \<le> length (onSearch env path options session w)
       \<and> hd (onSearch env path options session w) = ReplyFound [] 0"
proof -
  let ?st0 = "\<lparr>hasAll = False, nothing = False, calls = []\<rparr>"
  obtain ands st where wq: "walkQuery False (so_query options) ?st0 = (ands, st)"
    by (cases "walkQuery False (so_query options) ?st0")
  obtain n where n: "calls st = replicate n (ReplyFound [] 0)"
    using walk_calls(1) [of False "so_query options" ?st0] wq by auto
  have "0 < length (calls st)"
    using walkTerms_uid_empty [OF assms(3), of ?st0 False] wq by simp
  then have "0 < n" using n by simp
  then obtain k where k: "calls st = ReplyFound [] 0 # replicate k (ReplyFound [] 0)"
    using n by (cases n) auto
  show ?thesis
    using assms(1,2) wq k by (simp add: onSearch_def Let_def)
qed

section \<open>Properties of the journal entries\<close>

text \<open>
  C10. Whatever the storage reports, every entry that onCopy appends to the journal is
  an EXISTS entry without \<^verbatim>\<open>ignore\<close>, so that the issuing session and any other
  session \<open>other\<close> with the target selected receive it; every entry that onStore or
  onFetch appends is a FETCH entry, and every entry that onExpunge appends an EXPUNGE
  entry, with \<^verbatim>\<open>ignore = session.id\<close>, which the issuing session does not receive.
\<close>

theorem journal_entries_ignore:
  "(\<forall>x\<in>set (journal (snd (onCopy env path cu session w))).
      x \<in> set (journal w) \<or>
      (e_command (snd (snd x)) = EXISTS \<and> e_ignore (snd (snd x)) = None \<and>
       receives (s_id session) (snd (snd x)) \<and> receives other (snd (snd x))))
   \<and> (\<forall>x\<in>set (journal (snd (onStore env path su session w))).
      x \<in> set (journal w) \<or>
      (e_command (snd (snd x)) = FETCH \<and> e_ignore (snd (snd x)) = Some (s_id session) \<and>
       \<not> receives (s_id session) (snd (snd x))))
   \<and> (\<forall>x\<in>set (journal (snd (onFetch env path fo session w))).
      x \<in> set (journal w) \<or>
      (e_command (snd (snd x)) = FETCH \<and> e_ignore (snd (snd x)) = Some (s_id session) \<and>
       \<not> receives (s_id session) (snd (snd x))))
   \<and> (\<forall>x\<in>set (journal (snd (onExpunge env path xu session w))).
      x \<in> set (journal w) \<or>
      (e_command (snd (snd x)) = EXPUNGE \<and> e_ignore (snd (snd x)) = Some (s_id session) \<and>
       \<not> receives (s_id session) (snd (snd x))))"
proof -
  let ?C = "{x. x \<in> set (journal w) \<or>
      (e_command (snd (snd x)) = EXISTS \<and> e_ignore (snd (snd x)) = None \<and>
       receives (s_id session) (snd (snd x)) \<and> receives other (snd (snd x)))}"
  let ?F = "{x. x \<in> set (journal w) \<or>
      (e_command (snd (snd x)) = FETCH \<and> e_ignore (snd (snd x)) = Some (s_id session) \<and>
       \<not> receives (s_id session) (snd (snd x)))}"
  let ?X = "{x. x \<in> set (journal w) \<or>
      (e_command (snd (snd x)) = EXPUNGE \<and> e_ignore (snd (snd x)) = Some (s_id session) \<and>
       \<not> receives (s_id session) (snd (snd x)))}"
  have copy: "set (journal (snd (onCopy env path cu session w))) \<subseteq> ?C"
  proof -
    have "set (journal (snd (copy_processNext env mailbox target session cursor 0 0 [] [] w))) \<subseteq> ?C"
      for mailbox target cursor
      by (rule copy_journal_inv) (auto simp: receives_def)
    then show ?thesis
      by (auto simp: onCopy_def split: option.splits)
  qed
  have store: "set (journal (snd (onStore env path su session w))) \<subseteq> ?F"
  proof -
    have "set (journal (snd (store_processNext env mailbox path su session cursor [] [] 0 w))) \<subseteq> ?F"
      for mailbox cursor
      by (rule store_journal_inv) (auto simp: receives_def)
    then show ?thesis
      by (auto simp: onStore_def split: option.splits)
  qed
  have fetch: "set (journal (snd (onFetch env path fo session w))) \<subseteq> ?F"
  proof -
    have "set (journal (snd (fetch_processNext env path fo session cursor False [] [] 0 w))) \<subseteq> ?F"
      for cursor
      by (rule fetch_journal_inv) (auto simp: receives_def)
    then show ?thesis
      by (auto simp: onFetch_def split: option.splits)
  qed
  have expunge: "set (journal (snd (onExpunge env path xu session w))) \<subseteq> ?X"
  proof -
    have "set (journal (snd (expunge_processNext env mailbox path xu session cursor 0 0 w))) \<subseteq> ?X"
      for mailbox cursor
      by (rule expunge_journal_inv) (auto simp: receives_def)
    then show ?thesis
      by (auto simp: onExpunge_def split: option.splits)
  qed
  show ?thesis
    using copy store fetch expunge by blast
qed

theorem journal_entries_ignore_witness:
  "journal (snd (onCopy ex_env ''Drafts'' ex_copy ex_session ex_copy_world))
     = [(1, ''Archive'', \<lparr>e_command = EXISTS, e_ignore = None, e_uid = 40, e_flags = None,
                          e_message = 1200, e_modseq = None\<rparr>),
        (1, ''Archive'', \<lparr>e_command = EXISTS, e_ignore = None, e_uid = 41, e_flags = None,
                          e_message = 1201, e_modseq = None\<rparr>)]
   \<and> receives ''sess-A'' \<lparr>e_command = EXISTS, e_ignore = None, e_uid = 40, e_flags = None,
                           e_message = 1200, e_modseq = None\<rparr>
   \<and> journal (snd (onStore ex_env ''Drafts'' (ex_store ActionAdd [flagFlagged] [9] 0 True)
                      ex_session ex_copy_world))
     = [(1, ''Drafts'', \<lparr>e_command = FETCH, e_ignore = Some ''sess-A'', e_uid = 9,
                         e_flags = Some [flagFlagged], e_message = 201, e_modseq = None\<rparr>)]
   \<and> journal (snd (onFetch ex_env ''Drafts'' (ex_fetch\<lparr>fo_messages := [9]\<rparr>)
                      ex_session ex_copy_world))
     = [(1, ''Drafts'', \<lparr>e_command = FETCH, e_ignore = Some ''sess-A'', e_uid = 9,
                         e_flags = Some [flagSeen], e_message = 201, e_modseq = None\<rparr>)]
   \<and> journal (snd (onExpunge ex_env ''Drafts'' \<lparr>xp_silent = True\<rparr> ex_session ex_copy_world))
     = [(1, ''Drafts'', \<lparr>e_command = EXPUNGE, e_ignore = Some ''sess-A'', e_uid = 7,
                         e_flags = None, e_message = 200, e_modseq = None\<rparr>)]
   \<and> \<not> receives ''sess-A'' \<lparr>e_command = EXPUNGE, e_ignore = Some ''sess-A'', e_uid = 7,
                             e_flags = None, e_message = 200, e_modseq = None\<rparr>"
  using journal_entries_ignore [of ex_env "''Drafts''" ex_copy ex_session ex_copy_world
      "''sess-B''" "ex_store ActionAdd [flagFlagged] [9] 0 True" "ex_fetch\<lparr>fo_messages := [9]\<rparr>"
      "\<lparr>xp_silent = True\<rparr>"]
  by (simp add: receives_def copy_defs expunge_defs fetch_defs store_defs setting_defs
        storage_defs string_defs)

section \<open>Properties of onAuth\<close>

text \<open>
  C9. An authentication attempt that the rate limiter lets through and whose lookup
  reports no storage error has two ways to fail: no user of that name, or a user whose
  stored hash does not match the password. Both end in the same completion, the callback
  called with no argument, so the caller cannot tell them apart.
\<close>

theorem onAuth_failures_indistinguishable:
  assumes "loginLimiter env1 (auth_username lg1 @ '':'' @ s_remoteAddress sess1) = (None, 0)"
    and "loginLimiter env2 (auth_username lg2 @ '':'' @ s_remoteAddress sess2) = (None, 0)"
    and "usersFindErr env1 = None"
    and "usersFindErr env2 = None"
    and "findUser (auth_username lg1) us1 = None"
    and "findUser (auth_username lg2) us2 = Some u"
    and "\<not> compareSync env2 (l_password lg2) (u_password u)"
  shows "onAuth env1 lg1 sess1 us1 = onAuth env2 lg2 sess2 us2
       \<and> onAuth env2 lg2 sess2 us2 = AuthNothing"
  using assms by (simp add: onAuth_def)

theorem onAuth_failures_indistinguishable_witness:
  "onAuth ex_auth_env \<lparr>l_username = Some ''bob'', l_password = ''secret''\<rparr> ex_session ex_users
     = onAuth ex_auth_env \<lparr>l_username = Some '' alice '', l_password = ''guess''\<rparr> ex_session ex_users
   \<and> onAuth ex_auth_env \<lparr>l_username = Some '' alice '', l_password = ''guess''\<rparr> ex_session ex_users
     = AuthNothing"
  by (rule onAuth_failures_indistinguishable [where u = ex_alice])
     (simp_all add: ex_auth_env_def ex_session_def ex_users_def ex_alice_def auth_username_def
        trim_def is_space_def findUser_def)

end
